theory Spec2Isabelle
  imports Main "HOL-Library.AList" "HOL-Library.Multiset" "HOL-Library.Sublist"
begin

section \<open>Response values\<close>

text \<open>
  The values that travel through the stitching layer are JSON-like JavaScript values:
  the \<open>data\<close> of an execution result, the growing response tree of the Composer and
  the Executor. An object is the ordered list of its own properties (insertion order,
  which is what \<open>Object.entries\<close> enumerates for keys that are not array indices;
  GraphQL response keys are names and never are). Only own properties are modelled, not
  what a prototype would add. Numbers are restricted to integers.
\<close>

datatype jsval =
    Undefined
  | Null
  | Bool bool
  | Num int
  | Str string
  | Arr "jsval list"
  | Obj "(string \<times> jsval) list"

type_synonym obj = "(string \<times> jsval) list"

text \<open>\<open>o[k]\<close>: the value of an own property, \<open>undefined\<close> when there is none.\<close>

definition getProp :: "obj \<Rightarrow> string \<Rightarrow> jsval" where
  "getProp ob k = (case map_of ob k of None \<Rightarrow> Undefined | Some v \<Rightarrow> v)"

text \<open>\<open>o[k] = v\<close>: an existing property keeps its position, a new one goes last.\<close>

definition setProp :: "obj \<Rightarrow> string \<Rightarrow> jsval \<Rightarrow> obj" where
  "setProp ob k v = AList.update k v ob"

text \<open>\<open>isObjectLike(v)\<close> is \<open>typeof v == 'object' && v !== null\<close>.\<close>

fun isObjectLike :: "jsval \<Rightarrow> bool" where
  "isObjectLike (Arr _) = True"
| "isObjectLike (Obj _) = True"
| "isObjectLike _ = False"

fun isArray :: "jsval \<Rightarrow> bool" where
  "isArray (Arr _) = True"
| "isArray _ = False"

section \<open>Executor: deep merge\<close>

text \<open>
  \<open>Executor._deepMerge(fields, key, value)\<close> (Executor.ts). The source mutates
  \<open>fields\<close>; the model returns the updated object. When the entry is object-like, the
  value is object-like and not an array, the source loops over \<open>Object.entries(value)\<close>
  and merges each into \<open>fields[key]\<close>; \<open>deepMergeEntries\<close> is that loop.
  One case has no image among JSON values: the existing entry is an array and the incoming
  value a non-empty plain object, where JavaScript would attach named properties to the
  array. The model returns \<open>None\<close> there.
\<close>

fun deepMerge :: "obj \<Rightarrow> string \<Rightarrow> jsval \<Rightarrow> obj option"
  and deepMergeEntries :: "obj \<Rightarrow> obj \<Rightarrow> obj option" where
  "deepMerge fields key value =
     (if \<not> isObjectLike (getProp fields key) \<or> \<not> isObjectLike value \<or> isArray value
      then Some (setProp fields key value)
      else (case value of
              Obj entries \<Rightarrow>
                (case getProp fields key of
                   Obj subFields \<Rightarrow>
                     (case deepMergeEntries subFields entries of
                        None \<Rightarrow> None
                      | Some subFields' \<Rightarrow> Some (setProp fields key (Obj subFields')))
                 | _ \<Rightarrow> (if entries = [] then Some fields else None))
            | _ \<Rightarrow> Some (setProp fields key value)))"
| "deepMergeEntries subFields [] = Some subFields"
| "deepMergeEntries subFields ((subKey, subValue) # rest) =
     (case deepMerge subFields subKey subValue of
        None \<Rightarrow> None
      | Some subFields' \<Rightarrow> deepMergeEntries subFields' rest)"

text \<open>
  The hypothesis of the associativity law, in the words of the specification: the maps
  have disjoint structural keys. An object has no repeated key, at any depth
  (\<open>uniqueKeys\<close>). Two objects have disjoint structural keys (\<open>disjointKeys a b\<close>)
  when every key they share holds a plain object on both sides and these two objects have
  disjoint structural keys in turn: no leaf of one lies on a path of the other. Objects
  whose top-level key sets are disjoint are the case where no key is shared.
\<close>

fun uniqueKeys :: "obj \<Rightarrow> bool" where
  "uniqueKeys ob =
     (distinct (map fst ob) \<and>
      (\<forall>(k, v) \<in> set ob. case v of Obj sub \<Rightarrow> uniqueKeys sub | _ \<Rightarrow> True))"

fun disjointKeys :: "obj \<Rightarrow> obj \<Rightarrow> bool" where
  "disjointKeys a b =
     (\<forall>(k, w) \<in> set b.
        case map_of a k of
          None \<Rightarrow> True
        | Some v \<Rightarrow>
            (case v of
               Obj x \<Rightarrow> (case w of Obj y \<Rightarrow> disjointKeys x y | _ \<Rightarrow> False)
             | _ \<Rightarrow> False))"

declare uniqueKeys.simps [simp del] disjointKeys.simps [simp del]

text \<open>
  What \<open>_deepMerge\<close> leaves under \<open>key\<close>, given the entry it finds there and the
  incoming value (\<open>deepMerge_local\<close> below): the source's case distinction, seen from
  the entry.
\<close>

definition mergedValue :: "jsval \<Rightarrow> jsval \<Rightarrow> jsval option" where
  "mergedValue old value =
     (if \<not> isObjectLike old \<or> \<not> isObjectLike value \<or> isArray value then Some value
      else (case value of
              Obj entries \<Rightarrow>
                (case old of
                   Obj subFields \<Rightarrow> map_option Obj (deepMergeEntries subFields entries)
                 | _ \<Rightarrow> (if entries = [] then Some old else None))
            | _ \<Rightarrow> Some value))"

section \<open>Documents, selections and plans\<close>

text \<open>
  The parsed query document, as far as the stitching layer looks into it. A field node
  carries its alias, its name, its arguments and directives (kept as one opaque string:
  the code only ever copies them with \<open>{ ...field }\<close>) and its selection set, which is
  absent on a leaf.
\<close>

datatype selection =
    FieldSelection fieldNode
  | InlineFragment (typeCondition: "string option") (fragmentSelections: "selection list")
  | FragmentSpread string
and fieldNode =
  FieldNode (fieldAlias: "string option") (fieldName: string) (arguments: string)
            (selectionSet: "selection list option")

datatype operationType = QUERY | MUTATION | SUBSCRIPTION

record operationDefinition =
  operation :: operationType
  nameValue :: "string option"
  variableDefinitions :: "string list option"
  operationSelections :: "selection list"

record fragmentDefinition =
  fragmentName :: string
  fragmentTypeCondition :: string
  fragmentDefSelections :: "selection list"

datatype definitionNode =
    OperationDefinition operationDefinition
  | FragmentDefinition fragmentDefinition
  | OtherDefinition string

type_synonym document = "definitionNode list"

text \<open>A subschema is an opaque handle; only its identity matters to the plans.\<close>

datatype subschema = Subschema nat

datatype typeKind =
  ScalarKind | ObjectKind | InterfaceKind | UnionKind | EnumKind | InputObjectKind

datatype gqlType = GqlType (typeName: string) (typeKind: typeKind)

text \<open>
  The plan as the Composer reads it: a stitch tree maps a concrete object type to a field
  plan (\<open>stitchTree.fieldPlans.get(type)\<close>, keyed here by the type's name, which is
  unique in the merged schema); a field plan lists \<open>[subschema, subschemaPlan]\<close> entries
  and the stitch trees below it, by response key.
\<close>

datatype stitchTree = StitchTree (fieldPlans: "(string \<times> fieldPlanC) list")
and fieldPlanC =
  FieldPlanC (subschemaPlansC: "(subschema \<times> subschemaPlanC) list")
             (stitchTreesC: "(string \<times> stitchTree) list")
and subschemaPlanC =
  SubschemaPlanC (fieldNodesC: "fieldNode list")
                 (stitchTreesS: "(string \<times> stitchTree) list option")

section \<open>Composer\<close>

datatype graphQLError = GraphQLError (message: string)

text \<open>
  An \<open>ExecutionResult\<close>: \<open>data\<close> is \<open>Undefined\<close> when the key is absent,
  \<open>errors\<close> is \<open>None\<close> when it is absent or null (the code tests \<open>!= null\<close>).
\<close>

record executionResult =
  data :: jsval
  errors :: "graphQLError list option"

datatype pathKey = PKey string | PIndex nat

text \<open>A \<open>FetchPlan\<close>: one follow-up fetch collected while walking the stitch trees.\<close>

record fetchPlan =
  fieldNodes :: "fieldNode list"
  stitchTrees :: "(string \<times> stitchTree) list option"
  parent :: jsval
  target :: jsval
  path :: "pathKey list"

text \<open>
  The two ways \<open>_collectSubFetches\<close> raises: \<open>invariant(false, ...)\<close> with one of
  its three messages, or the \<open>TypeError\<close> of reading a property of \<open>null\<close>.
\<close>

datatype composerError =
    MissingTypenameEntry
  | ExpectedObjectType string
  | MissingFieldPlan string
  | TypeError

text \<open>Decimal digits of a number, and JavaScript's conversion of a value to a property key.\<close>

fun digitsOf :: "nat \<Rightarrow> string" where
  "digitsOf n =
     (if n < 10 then [char_of (48 + n)]
      else digitsOf (n div 10) @ [char_of (48 + n mod 10)])"

declare digitsOf.simps [simp del]

fun joinComma :: "string list \<Rightarrow> string" where
  "joinComma [] = []"
| "joinComma [s] = s"
| "joinComma (s # t # ss) = s @ '','' @ joinComma (t # ss)"

fun toStringJS :: "jsval \<Rightarrow> string" where
  "toStringJS Undefined = ''undefined''"
| "toStringJS Null = ''null''"
| "toStringJS (Bool b) = (if b then ''true'' else ''false'')"
| "toStringJS (Num n) = (if n < 0 then ''-'' @ digitsOf (nat (- n)) else digitsOf (nat n))"
| "toStringJS (Str s) = s"
| "toStringJS (Arr xs) =
     joinComma (map (\<lambda>x. if x = Null \<or> x = Undefined then [] else toStringJS x) xs)"
| "toStringJS (Obj _) = ''[object Object]''"

text \<open>\<open>v[k]\<close> for a response key \<open>k\<close>: primitives have no such property.\<close>

fun getMember :: "jsval \<Rightarrow> string \<Rightarrow> jsval" where
  "getMember (Obj ob) k = getProp ob k"
| "getMember _ k = Undefined"

text \<open>
  \<open>subFetchMap\<close> is an \<open>AccumulatorMap\<close>, whose class is not part of the sources at
  hand; the model keeps the sequence of its \<open>add(subschema, fetchPlan)\<close> calls.
\<close>

definition addPlans ::
  "(subschema \<times> fetchPlan) list \<Rightarrow> (subschema \<times> subschemaPlanC) list \<Rightarrow>
   jsval \<Rightarrow> jsval \<Rightarrow> pathKey list \<Rightarrow> (subschema \<times> fetchPlan) list" where
  "addPlans acc plans par tgt p =
     acc @ map (\<lambda>(s, sp). (s, \<lparr>fieldNodes = fieldNodesC sp, stitchTrees = stitchTreesS sp,
                                parent = par, target = tgt, path = p\<rparr>)) plans"

lemma map_of_size_less:
  "map_of xs k = Some v \<Longrightarrow> size v < size_list (size_prod (\<lambda>x. 0) size) xs"
  by (induction xs) (auto split: if_splits)

text \<open>
  \<open>Composer._collectSubFetches\<close> and \<open>Composer._walkStitchTrees\<close>. The first
  argument is \<open>superSchema.getType\<close> (a lookup in the merged types by name).
  \<open>collectElements\<close> is the loop over the elements of an array.
\<close>

function collectSubFetches ::
    "(string \<rightharpoonup> gqlType) \<Rightarrow> (subschema \<times> fetchPlan) list \<Rightarrow> jsval \<Rightarrow> jsval \<Rightarrow>
     stitchTree \<Rightarrow> pathKey list \<Rightarrow> composerError + (subschema \<times> fetchPlan) list"
  and collectElements ::
    "(string \<rightharpoonup> gqlType) \<Rightarrow> (subschema \<times> fetchPlan) list \<Rightarrow> jsval \<Rightarrow> jsval list \<Rightarrow>
     nat \<Rightarrow> stitchTree \<Rightarrow> pathKey list \<Rightarrow> composerError + (subschema \<times> fetchPlan) list"
  and walkStitchTrees ::
    "(string \<rightharpoonup> gqlType) \<Rightarrow> (subschema \<times> fetchPlan) list \<Rightarrow> jsval \<Rightarrow>
     (string \<times> stitchTree) list \<Rightarrow> pathKey list \<Rightarrow>
     composerError + (subschema \<times> fetchPlan) list"
where
  "collectSubFetches getType acc par fieldsOrList tree p =
     (case fieldsOrList of
        Arr xs \<Rightarrow> collectElements getType acc fieldsOrList xs 0 tree p
      | Null \<Rightarrow> Inl TypeError
      | Undefined \<Rightarrow> Inl TypeError
      | _ \<Rightarrow>
        (let tn = getMember fieldsOrList ''__stitching__typename'' in
         if tn = Null \<or> tn = Undefined then Inl MissingTypenameEntry
         else (case getType (toStringJS tn) of
                 None \<Rightarrow> Inl (ExpectedObjectType (toStringJS tn))
               | Some ty \<Rightarrow>
                  if typeKind ty \<noteq> ObjectKind then Inl (ExpectedObjectType (toStringJS tn))
                  else (case map_of (fieldPlans tree) (typeName ty) of
                          None \<Rightarrow> Inl (MissingFieldPlan (toStringJS tn))
                        | Some fp \<Rightarrow>
                            walkStitchTrees getType
                              (addPlans acc (subschemaPlansC fp) par fieldsOrList p)
                              fieldsOrList (stitchTreesC fp) p))))"
| "collectElements getType acc arr [] i tree p = Inr acc"
| "collectElements getType acc arr (x # xs) i tree p =
     (case collectSubFetches getType acc arr x tree (p @ [PIndex i]) of
        Inl e \<Rightarrow> Inl e
      | Inr acc' \<Rightarrow> collectElements getType acc' arr xs (Suc i) tree p)"
| "walkStitchTrees getType acc flds [] p = Inr acc"
| "walkStitchTrees getType acc flds ((key, tree) # rest) p =
     (if getMember flds key \<noteq> Undefined
      then (case collectSubFetches getType acc flds (getMember flds key) tree (p @ [PKey key]) of
              Inl e \<Rightarrow> Inl e
            | Inr acc' \<Rightarrow> walkStitchTrees getType acc' flds rest p)
      else walkStitchTrees getType acc flds rest p)"
  by pat_completeness auto

termination
  apply (relation "inv_image (less_than <*lex*> less_than)
     (\<lambda>x. case x of
        Inl (g, acc, par, v, tree, p) \<Rightarrow> (size tree, size v)
      | Inr (Inl (g, acc, arr, xs, i, tree, p)) \<Rightarrow> (size tree, size_list size xs)
      | Inr (Inr (g, acc, flds, trees, p)) \<Rightarrow>
          (size_list (size_prod (\<lambda>x. 0) size) trees, 0))")
       apply (auto dest!: map_of_size_less)
  apply (case_tac tree; case_tac x2a; simp)
  done

declare collectSubFetches.simps [simp del]

text \<open>
  \<open>parent[parentKey]\<close> and \<open>parent[parentKey] = null\<close>. \<open>parentKey\<close> is the last
  element of the path, \<open>undefined\<close> (here \<open>None\<close>) for the empty path. A parent is
  the object or the array that held the stitched value when it was collected.
\<close>

fun keyString :: "pathKey option \<Rightarrow> string" where
  "keyString None = ''undefined''"
| "keyString (Some (PKey k)) = k"
| "keyString (Some (PIndex i)) = digitsOf i"

fun readSlot :: "jsval \<Rightarrow> pathKey option \<Rightarrow> jsval" where
  "readSlot (Obj ob) key = getProp ob (keyString key)"
| "readSlot (Arr xs) (Some (PIndex i)) = (if i < length xs then xs ! i else Undefined)"
| "readSlot _ _ = Undefined"

fun writeNull :: "jsval \<Rightarrow> pathKey \<Rightarrow> jsval" where
  "writeNull (Obj ob) key = Obj (setProp ob (keyString (Some key)) Null)"
| "writeNull (Arr xs) (PIndex i) =
     Arr (if i < length xs then xs[i := Null]
          else xs @ replicate (i - length xs) Undefined @ [Null])"
| "writeNull v _ = v"

fun truthy :: "jsval \<Rightarrow> bool" where
  "truthy Undefined = False"
| "truthy Null = False"
| "truthy (Bool b) = b"
| "truthy (Num n) = (n \<noteq> 0)"
| "truthy (Str s) = (s \<noteq> [])"
| "truthy _ = True"

text \<open>\<open>Object.entries(v)\<close>.\<close>

fun objectEntries :: "jsval \<Rightarrow> obj" where
  "objectEntries (Obj ob) = ob"
| "objectEntries (Arr xs) = zip (map digitsOf [0..<length xs]) xs"
| "objectEntries (Str s) = zip (map digitsOf [0..<length s]) (map (\<lambda>c. Str [c]) s)"
| "objectEntries _ = []"

text \<open>
  What one call of \<open>Composer._handleResult(parent, fields, stitch, result, path)\<close>
  leaves behind: the error list, the \<open>nulled\<close> flag, the parent and the target
  \<open>fields\<close> object after the call, and the follow-up fetches it collected (which the
  source then dispatches one by one), or the error the walk raised.
\<close>

record handled =
  errorsAfter :: "graphQLError list"
  nulledAfter :: bool
  parentAfter :: jsval
  fieldsAfter :: obj
  subFetches :: "composerError + (subschema \<times> fetchPlan) list"

definition handleResult ::
  "(string \<rightharpoonup> gqlType) \<Rightarrow> graphQLError list \<Rightarrow> bool \<Rightarrow> jsval \<Rightarrow> obj \<Rightarrow>
   (string \<times> stitchTree) list option \<Rightarrow> executionResult \<Rightarrow> pathKey list \<Rightarrow> handled" where
  "handleResult getType errs nld par flds trees result p =
     (let errs' = (case errors result of None \<Rightarrow> errs | Some es \<Rightarrow> errs @ es);
          parentKey = (if p = [] then None else Some (last p))
      in if (if par \<noteq> Undefined then readSlot par parentKey = Null else nld)
         then \<lparr>errorsAfter = errs', nulledAfter = nld, parentAfter = par,
               fieldsAfter = flds, subFetches = Inr []\<rparr>
         else if data result = Null \<or> data result = Undefined
         then (case parentKey of
                 None \<Rightarrow> \<lparr>errorsAfter = errs', nulledAfter = True, parentAfter = par,
                           fieldsAfter = flds, subFetches = Inr []\<rparr>
               | Some k \<Rightarrow>
                   \<lparr>errorsAfter = errs', nulledAfter = nld,
                    parentAfter = (if truthy par then writeNull par k else par),
                    fieldsAfter = flds, subFetches = Inr []\<rparr>)
         else \<lparr>errorsAfter = errs', nulledAfter = nld, parentAfter = par,
               fieldsAfter =
                 fold (\<lambda>(key, value) f. setProp f key value) (objectEntries (data result)) flds,
               subFetches =
                 (case trees of
                    None \<Rightarrow> Inr []
                  | Some ts \<Rightarrow> walkStitchTrees getType [] (data result) ts p)\<rparr>)"

text \<open>The Composer's own state, and \<open>Composer._buildResponse\<close>.\<close>

record composer =
  composerFields :: obj
  composerErrors :: "graphQLError list"
  nulled :: bool

definition buildResponse :: "composer \<Rightarrow> executionResult" where
  "buildResponse c =
     (let fieldsOrNull = (if nulled c then Null else Obj (composerFields c))
      in if length (composerErrors c) > 0
         then \<lparr>data = fieldsOrNull, errors = Some (composerErrors c)\<rparr>
         else \<lparr>data = fieldsOrNull, errors = None\<rparr>)"

text \<open>
  \<open>Composer._createDocument(selections)\<close>, and next to it
  \<open>Executor._createDocument(selections)\<close>, which spreads \<open>this.operation\<close> and
  appends \<open>this.fragments\<close>.
\<close>

definition createDocument :: "selection list \<Rightarrow> document" where
  "createDocument sels =
     [OperationDefinition \<lparr>operation = QUERY, nameValue = None,
        variableDefinitions = None, operationSelections = sels\<rparr>]"

definition executorCreateDocument ::
  "operationDefinition \<Rightarrow> fragmentDefinition list \<Rightarrow> selection list \<Rightarrow> document" where
  "executorCreateDocument opn frags sels =
     OperationDefinition (opn\<lparr>operationSelections := sels\<rparr>) # map FragmentDefinition frags"

text \<open>The document of the follow-up fetch the Composer sends for a collected fetch plan.\<close>

definition subFetchDocument :: "fetchPlan \<Rightarrow> document" where
  "subFetchDocument f = createDocument (map FieldSelection (fieldNodes f))"

text \<open>
  A composition is a sequence of \<open>_handleResult\<close> calls: \<open>compose()\<close> makes one per
  top-level stitch, with \<open>parent\<close> undefined, \<open>fields\<close> the Composer's own map and the
  empty path; every call that merged dispatches its follow-up fetches, and each of their
  results is handled by a further call (at once when the executor answers synchronously,
  when its promise settles otherwise). A call is listed with the parent and the target as
  they are when it starts. The error list and the \<open>nulled\<close> flag are threaded through
  the calls; an error raised by the walk ends the composition.
\<close>

record call =
  callParent :: jsval
  callFields :: obj
  callTrees :: "(string \<times> stitchTree) list option"
  callResult :: executionResult
  callPath :: "pathKey list"

fun runCalls ::
  "(string \<rightharpoonup> gqlType) \<Rightarrow> graphQLError list \<Rightarrow> bool \<Rightarrow> call list \<Rightarrow>
   composerError + (graphQLError list \<times> bool)" where
  "runCalls getType errs nld [] = Inr (errs, nld)"
| "runCalls getType errs nld (c # cs) =
     (let h = handleResult getType errs nld (callParent c) (callFields c) (callTrees c)
                (callResult c) (callPath c)
      in case subFetches h of
           Inl e \<Rightarrow> Inl e
         | Inr _ \<Rightarrow> runCalls getType (errorsAfter h) (nulledAfter h) cs)"

text \<open>The errors a result carries (none when \<open>result.errors\<close> is absent).\<close>

definition resultErrors :: "executionResult \<Rightarrow> graphQLError list" where
  "resultErrors r = (case errors r of None \<Rightarrow> [] | Some es \<Rightarrow> es)"

text \<open>
  The three invariant violations at a stitch point, in the words of the specification: the
  stitched value has no \<open>__stitching__typename\<close> entry, or the entry does not name an
  object type of the super-schema, or the stitch plan has no field plan for that type.
\<close>

definition stitchPointFailure :: "(string \<rightharpoonup> gqlType) \<Rightarrow> jsval \<Rightarrow> stitchTree \<Rightarrow> bool" where
  "stitchPointFailure getType v tree =
     (let tn = getMember v ''__stitching__typename''
      in tn = Null \<or> tn = Undefined \<or>
         (case getType (toStringJS tn) of
            None \<Rightarrow> True
          | Some ty \<Rightarrow> typeKind ty \<noteq> ObjectKind \<or> map_of (fieldPlans tree) (typeName ty) = None))"

section \<open>Properties of the deep merge\<close>

lemma getProp_setProp:
  "getProp (setProp ob k v) k' = (if k' = k then v else getProp ob k')"
  by (simp add: getProp_def setProp_def update_conv')

lemma deepMerge_local:
  "deepMerge a k v = map_option (\<lambda>u. AList.update k u a) (mergedValue (getProp a k) v)"
  apply (cases v; cases "getProp a k")
  apply (auto simp: mergedValue_def setProp_def getProp_def update_triv split: option.splits)
  done

declare deepMerge.simps [simp del]

lemma update_update_same: "AList.update k v (AList.update k u al) = AList.update k v al"
  by (induction al) auto

lemma update_swap_list:
  "k \<in> fst ` set al \<Longrightarrow> k \<noteq> k' \<Longrightarrow>
   AList.update k' v' (AList.update k v al) = AList.update k v (AList.update k' v' al)"
  by (induction al) auto

lemma key_in_update: "k \<in> fst ` set (AList.update k' v al) \<longleftrightarrow> k = k' \<or> k \<in> fst ` set al"
  by (induction al) auto

lemma getProp_update:
  "getProp (AList.update k v ob) k' = (if k' = k then v else getProp ob k')"
  by (simp add: getProp_def update_conv')

lemma bind_commute:
  "Option.bind x (\<lambda>a. Option.bind y (\<lambda>b. f a b)) = Option.bind y (\<lambda>b. Option.bind x (\<lambda>a. f a b))"
  by (cases x; cases y; simp)

lemma deepMergeEntries_Cons:
  "deepMergeEntries a ((k, v) # b) = Option.bind (deepMerge a k v) (\<lambda>a'. deepMergeEntries a' b)"
  by (simp split: option.splits del: deepMerge.simps)

lemma deepMergeEntries_update:
  "k \<in> fst ` set a \<Longrightarrow> k \<notin> fst ` set b \<Longrightarrow>
   deepMergeEntries (AList.update k u a) b = map_option (AList.update k u) (deepMergeEntries a b)"
proof (induction b arbitrary: a)
  case Nil
  then show ?case by simp
next
  case (Cons e b)
  obtain k1 v1 where e: "e = (k1, v1)" by (cases e)
  from Cons.prems e have ne: "k1 \<noteq> k" and nb: "k \<notin> fst ` set b" by auto
  show ?case
  proof (cases "mergedValue (getProp a k1) v1")
    case None
    then show ?thesis using ne
      by (simp add: e deepMergeEntries_Cons deepMerge_local getProp_update del: deepMerge.simps deepMergeEntries.simps)
  next
    case (Some u1)
    have k_in: "k \<in> fst ` set (AList.update k1 u1 a)"
      using Cons.prems(1) by (simp add: key_in_update)
    have sw: "AList.update k1 u1 (AList.update k u a) = AList.update k u (AList.update k1 u1 a)"
      using update_swap_list [OF Cons.prems(1), of k1 u1 u] ne by simp
    show ?thesis using ne Some Cons.IH [OF k_in nb]
      by (simp add: e deepMergeEntries_Cons deepMerge_local getProp_update sw
          del: deepMerge.simps deepMergeEntries.simps)
  qed
qed

lemma deepMergeEntries_other:
  "k \<notin> fst ` set b \<Longrightarrow> deepMergeEntries a b = Some ab \<Longrightarrow> getProp ab k = getProp a k"
proof (induction b arbitrary: a)
  case Nil
  then show ?case by simp
next
  case (Cons e b)
  obtain k1 v1 where e: "e = (k1, v1)" by (cases e)
  from Cons.prems e have ne: "k1 \<noteq> k" and nb: "k \<notin> fst ` set b" by auto
  from Cons.prems(2) obtain u1 where
    u1: "mergedValue (getProp a k1) v1 = Some u1"
    and rest: "deepMergeEntries (AList.update k1 u1 a) b = Some ab"
    by (auto simp: e deepMergeEntries_Cons deepMerge_local Option.bind_eq_Some_conv
        simp del: deepMerge.simps deepMergeEntries.simps)
  from Cons.IH [OF nb rest] ne show ?case by (simp add: getProp_update)
qed

lemma deepMergeEntries_lookup:
  "distinct (map fst b) \<Longrightarrow> map_of b k = Some v \<Longrightarrow> deepMergeEntries a b = Some ab \<Longrightarrow>
   mergedValue (getProp a k) v = Some (getProp ab k)"
proof (induction b arbitrary: a)
  case Nil
  then show ?case by simp
next
  case (Cons e b)
  obtain k1 v1 where e: "e = (k1, v1)" by (cases e)
  from Cons.prems(3) obtain u1 where
    u1: "mergedValue (getProp a k1) v1 = Some u1"
    and rest: "deepMergeEntries (AList.update k1 u1 a) b = Some ab"
    by (auto simp: e deepMergeEntries_Cons deepMerge_local Option.bind_eq_Some_conv
        simp del: deepMerge.simps deepMergeEntries.simps)
  from Cons.prems(1) e have d: "distinct (map fst b)" and nb: "k1 \<notin> fst ` set b" by auto
  show ?case
  proof (cases "k1 = k")
    case True
    with Cons.prems(2) e have "v1 = v" by simp
    with deepMergeEntries_other [OF nb rest] u1 True show ?thesis
      by (simp add: getProp_update)
  next
    case False
    with Cons.prems(2) e have "map_of b k = Some v" by simp
    from Cons.IH [OF d this rest] False show ?thesis by (simp add: getProp_update)
  qed
qed

lemma deepMergeEntries_keys:
  "deepMergeEntries a b = Some ab \<Longrightarrow> fst ` set ab = fst ` set a \<union> fst ` set b"
proof (induction b arbitrary: a)
  case Nil
  then show ?case by simp
next
  case (Cons e b)
  obtain k1 v1 where e: "e = (k1, v1)" by (cases e)
  from Cons.prems obtain u1 where
    u1: "mergedValue (getProp a k1) v1 = Some u1"
    and rest: "deepMergeEntries (AList.update k1 u1 a) b = Some ab"
    by (auto simp: e deepMergeEntries_Cons deepMerge_local Option.bind_eq_Some_conv
        simp del: deepMerge.simps deepMergeEntries.simps)
  have ks: "fst ` set (AList.update k1 u1 a) = insert k1 (fst ` set a)"
    using key_in_update [of _ k1 u1 a] by blast
  from Cons.IH [OF rest] show ?case by (simp add: e ks)
qed

lemma bind_map_opt: "Option.bind (map_option f x) g = Option.bind x (\<lambda>y. g (f y))"
  by (cases x) simp_all

lemma bind_const_None: "Option.bind x (\<lambda>_. None) = None"
  by (cases x) simp_all

lemma deepMerge_into_merged:
  assumes "distinct (map fst b)"
    and "\<And>v. map_of b k = Some v \<Longrightarrow>
           Option.bind (mergedValue (getProp a k) v) (\<lambda>uv. mergedValue uv w)
             = Option.bind (mergedValue v w) (mergedValue (getProp a k))"
  shows "Option.bind (deepMergeEntries a b) (\<lambda>m. deepMerge m k w)
           = Option.bind (deepMerge b k w) (deepMergeEntries a)"
  using assms
proof (induction b arbitrary: a)
  case Nil
  have "mergedValue (getProp [] k) w = Some w"
    by (simp add: mergedValue_def getProp_def)
  then show ?case
    by (simp add: deepMerge_local [of "[]"] split: option.splits del: deepMerge.simps)
next
  case (Cons e b)
  obtain k1 v1 where e: "e = (k1, v1)" by (cases e)
  from Cons.prems(1) e have d: "distinct (map fst b)" and nb: "k1 \<notin> fst ` set b" by auto
  show ?case
  proof (cases "k1 = k")
    case False
    have step: "deepMerge ((k1, v1) # b) k w = map_option ((#) (k1, v1)) (deepMerge b k w)"
      using False
      by (simp add: deepMerge_local getProp_def option.map_comp comp_def del: deepMerge.simps)
    show ?thesis
    proof (cases "deepMerge a k1 v1")
      case None
      then show ?thesis
        by (cases "deepMerge b k w")
           (simp_all add: e step deepMergeEntries_Cons del: deepMerge.simps deepMergeEntries.simps)
    next
      case (Some a1)
      then have g: "getProp a1 k = getProp a k"
        using False by (auto simp: deepMerge_local getProp_update simp del: deepMerge.simps)
      have m: "map_of ((k1, v1) # b) k = map_of b k" using False by simp
      have ih: "Option.bind (deepMergeEntries a1 b) (\<lambda>m. deepMerge m k w)
                  = Option.bind (deepMerge b k w) (deepMergeEntries a1)"
      proof (rule Cons.IH [OF d])
        fix v assume "map_of b k = Some v"
        with Cons.prems(2) [of v] False show
          "Option.bind (mergedValue (getProp a1 k) v) (\<lambda>uv. mergedValue uv w)
             = Option.bind (mergedValue v w) (mergedValue (getProp a1 k))"
          by (auto simp: g e)
      qed
      show ?thesis
        using Some ih
        by (cases "deepMerge b k w")
           (simp_all add: e step deepMergeEntries_Cons del: deepMerge.simps deepMergeEntries.simps)
    qed
  next
    case True
    let ?u = "getProp a k"
    have assoc: "Option.bind (mergedValue ?u v1) (\<lambda>uv. mergedValue uv w)
                   = Option.bind (mergedValue v1 w) (mergedValue ?u)"
      using Cons.prems(2) [of v1] by (simp add: e True)
    have nbk: "k \<notin> fst ` set b" using nb True by simp
    have rhs_step: "deepMerge ((k, v1) # b) k w = map_option (\<lambda>v'. (k, v') # b) (mergedValue v1 w)"
      by (simp add: deepMerge_local getProp_def del: deepMerge.simps)
    have shift: "deepMergeEntries (AList.update k u2 a) b
                   = map_option (AList.update k u2) (deepMergeEntries (AList.update k u1 a) b)"
      for u1 u2
    proof -
      have "k \<in> fst ` set (AList.update k u1 a)" by (simp add: key_in_update)
      from deepMergeEntries_update [OF this nbk, of u2] show ?thesis
        by (simp add: update_update_same)
    qed
    show ?thesis
    proof (cases "mergedValue ?u v1")
      case None
      with assoc have r: "Option.bind (mergedValue v1 w) (mergedValue ?u) = None" by simp
      have "Option.bind (deepMerge ((k, v1) # b) k w) (deepMergeEntries a) = None"
      proof (cases "mergedValue v1 w")
        case None
        then show ?thesis by (simp add: rhs_step)
      next
        case (Some v')
        with r have "mergedValue ?u v' = None" by simp
        with Some show ?thesis
          unfolding rhs_step
          by (simp add: deepMergeEntries_Cons deepMerge_local
              del: deepMerge.simps deepMergeEntries.simps)
      qed
      with None show ?thesis
        by (simp add: e True deepMergeEntries_Cons deepMerge_local
            del: deepMerge.simps deepMergeEntries.simps)
    next
      case (Some u1)
      with assoc have r: "Option.bind (mergedValue v1 w) (mergedValue ?u) = mergedValue u1 w"
        by simp
      define m1 where "m1 = deepMergeEntries (AList.update k u1 a) b"
      have shift1: "deepMergeEntries (AList.update k u2 a) b = map_option (AList.update k u2) m1"
        for u2 unfolding m1_def by (rule shift)
      have lhs: "Option.bind (deepMergeEntries a ((k, v1) # b)) (\<lambda>m. deepMerge m k w)
                 = Option.bind m1
                     (\<lambda>m. map_option (\<lambda>u'. AList.update k u' m) (mergedValue u1 w))"
      proof (cases m1)
        case None
        then have "deepMergeEntries (AList.update k u1 a) b = None" by (simp add: m1_def)
        with Some None show ?thesis
          by (simp add: deepMergeEntries_Cons deepMerge_local
              del: deepMerge.simps deepMergeEntries.simps)
      next
        case (Some m)
        then have sm: "deepMergeEntries (AList.update k u1 a) b = Some m" by (simp add: m1_def)
        from deepMergeEntries_other [OF nbk sm] have "getProp m k = u1"
          by (simp add: getProp_update)
        with Some sm \<open>mergedValue ?u v1 = Some u1\<close> show ?thesis
          by (simp add: deepMergeEntries_Cons deepMerge_local
              del: deepMerge.simps deepMergeEntries.simps)
      qed
      have rhs: "Option.bind (deepMerge ((k, v1) # b) k w) (deepMergeEntries a)
                 = Option.bind (mergedValue u1 w) (\<lambda>u2. map_option (AList.update k u2) m1)"
      proof -
        have "Option.bind (deepMerge ((k, v1) # b) k w) (deepMergeEntries a)
              = Option.bind (mergedValue v1 w)
                  (\<lambda>v'. Option.bind (mergedValue ?u v') (\<lambda>u2. map_option (AList.update k u2) m1))"
          unfolding rhs_step
          by (cases "mergedValue v1 w")
             (simp_all add: deepMergeEntries_Cons deepMerge_local bind_map_opt shift1
                del: deepMerge.simps deepMergeEntries.simps)
        also have "\<dots> = Option.bind (Option.bind (mergedValue v1 w) (mergedValue ?u))
                        (\<lambda>u2. map_option (AList.update k u2) m1)"
          by (cases "mergedValue v1 w") simp_all
        finally show ?thesis by (simp add: r)
      qed
      show ?thesis
        unfolding e True lhs rhs
        by (cases "mergedValue u1 w"; cases m1) simp_all
    qed
  qed
qed

lemma deepMergeEntries_assoc_steps:
  assumes "distinct (map fst b)" and "distinct (map fst c)"
    and "deepMergeEntries a b = Some ab"
    and "\<forall>(k, w) \<in> set c.
           (case map_of b k of
              None \<Rightarrow> mergedValue (getProp a k) w \<noteq> None
            | Some v \<Rightarrow>
                (\<exists>r. Option.bind (mergedValue (getProp a k) v) (\<lambda>uv. mergedValue uv w) = Some r
                   \<and> Option.bind (mergedValue v w) (mergedValue (getProp a k)) = Some r))"
  shows "\<exists>r. deepMergeEntries ab c = Some r
           \<and> Option.bind (deepMergeEntries b c) (deepMergeEntries a) = Some r"
  using assms
proof (induction c arbitrary: b ab)
  case Nil
  then show ?case by simp
next
  case (Cons e c)
  obtain k w where e: "e = (k, w)" by (cases e)
  from Cons.prems(2) e have dc: "distinct (map fst c)" and nc: "k \<notin> fst ` set c" by auto
  let ?u = "getProp a k"
  have entry: "case map_of b k of
              None \<Rightarrow> mergedValue ?u w \<noteq> None
            | Some v \<Rightarrow>
                (\<exists>r. Option.bind (mergedValue ?u v) (\<lambda>uv. mergedValue uv w) = Some r
                   \<and> Option.bind (mergedValue v w) (mergedValue ?u) = Some r)"
    using Cons.prems(4) by (simp add: e)
  have star: "Option.bind (deepMergeEntries a b) (\<lambda>m. deepMerge m k w)
                = Option.bind (deepMerge b k w) (deepMergeEntries a)"
  proof (rule deepMerge_into_merged [OF Cons.prems(1)])
    fix v assume "map_of b k = Some v"
    with entry show "Option.bind (mergedValue ?u v) (\<lambda>uv. mergedValue uv w)
                       = Option.bind (mergedValue v w) (mergedValue ?u)"
      by auto
  qed
  have "\<exists>v'. mergedValue (getProp b k) w = Some v'"
  proof (cases "map_of b k")
    case None
    then show ?thesis by (simp add: getProp_def mergedValue_def)
  next
    case (Some v)
    with entry show ?thesis by (auto simp: getProp_def Option.bind_eq_Some_conv)
  qed
  then obtain v' where v': "mergedValue (getProp b k) w = Some v'" by blast
  define b1 where "b1 = AList.update k v' b"
  have db1: "deepMerge b k w = Some b1" by (simp add: deepMerge_local v' b1_def)
  have "\<exists>u'. mergedValue (getProp ab k) w = Some u'"
  proof (cases "map_of b k")
    case None
    then have "k \<notin> fst ` set b" by (simp add: map_of_eq_None_iff)
    from deepMergeEntries_other [OF this Cons.prems(3)] entry None show ?thesis by auto
  next
    case (Some v)
    from deepMergeEntries_lookup [OF Cons.prems(1) Some Cons.prems(3)] entry Some
    show ?thesis by auto
  qed
  then obtain u' where u': "mergedValue (getProp ab k) w = Some u'" by blast
  define ab1 where "ab1 = AList.update k u' ab"
  have dab1: "deepMerge ab k w = Some ab1" by (simp add: deepMerge_local u' ab1_def)
  from star have m1: "deepMergeEntries a b1 = Some ab1"
    by (simp add: Cons.prems(3) db1 dab1)
  have d1: "distinct (map fst b1)"
    using Cons.prems(1) by (simp add: b1_def distinct_update)
  have rest: "\<forall>(k', w') \<in> set c.
           (case map_of b1 k' of
              None \<Rightarrow> mergedValue (getProp a k') w' \<noteq> None
            | Some v \<Rightarrow>
                (\<exists>r. Option.bind (mergedValue (getProp a k') v) (\<lambda>uv. mergedValue uv w') = Some r
                   \<and> Option.bind (mergedValue v w') (mergedValue (getProp a k')) = Some r))"
  proof (clarify)
    fix k' w' assume mem: "(k', w') \<in> set c"
    with nc have "k' \<noteq> k" by force
    then have "map_of b1 k' = map_of b k'" by (simp add: b1_def update_conv')
    with Cons.prems(4) mem show
      "case map_of b1 k' of
              None \<Rightarrow> mergedValue (getProp a k') w' \<noteq> None
            | Some v \<Rightarrow>
                (\<exists>r. Option.bind (mergedValue (getProp a k') v) (\<lambda>uv. mergedValue uv w') = Some r
                   \<and> Option.bind (mergedValue v w') (mergedValue (getProp a k')) = Some r)"
      by auto
  qed
  from Cons.IH [OF d1 dc m1 rest] obtain r where
    r: "deepMergeEntries ab1 c = Some r"
       "Option.bind (deepMergeEntries b1 c) (deepMergeEntries a) = Some r"
    by blast
  show ?case
    using r by (simp add: e deepMergeEntries_Cons db1 dab1 del: deepMergeEntries.simps)
qed

lemma uniqueKeys_distinct: "uniqueKeys b \<Longrightarrow> distinct (map fst b)"
  by (simp add: uniqueKeys.simps [of b])

lemma uniqueKeys_entry: "uniqueKeys b \<Longrightarrow> (k, Obj y) \<in> set b \<Longrightarrow> uniqueKeys y"
  by (auto simp: uniqueKeys.simps [of b])

lemma disjointKeys_entry:
  "disjointKeys a b \<Longrightarrow> (k, w) \<in> set b \<Longrightarrow> map_of a k = Some v \<Longrightarrow>
   \<exists>x y. v = Obj x \<and> w = Obj y \<and> disjointKeys x y"
proof -
  assume dj: "disjointKeys a b" and mem: "(k, w) \<in> set b" and v: "map_of a k = Some v"
  from dj have "\<forall>(k, w) \<in> set b.
        case map_of a k of
          None \<Rightarrow> True
        | Some v \<Rightarrow>
            (case v of
               Obj x \<Rightarrow> (case w of Obj y \<Rightarrow> disjointKeys x y | _ \<Rightarrow> False)
             | _ \<Rightarrow> False)"
    by (simp only: disjointKeys.simps [of a b])
  with mem v have "case v of
               Obj x \<Rightarrow> (case w of Obj y \<Rightarrow> disjointKeys x y | _ \<Rightarrow> False)
             | _ \<Rightarrow> False"
    by force
  then show ?thesis by (cases v; cases w; simp)
qed

lemma deepMergeEntries_defined_steps:
  "distinct (map fst b) \<Longrightarrow> \<forall>(k, w) \<in> set b. mergedValue (getProp a k) w \<noteq> None \<Longrightarrow>
   \<exists>ab. deepMergeEntries a b = Some ab"
proof (induction b arbitrary: a)
  case Nil
  then show ?case by simp
next
  case (Cons e b)
  obtain k w where e: "e = (k, w)" by (cases e)
  from Cons.prems e obtain u where u: "mergedValue (getProp a k) w = Some u" by auto
  from Cons.prems(1) e have d: "distinct (map fst b)" and nb: "k \<notin> fst ` set b" by auto
  have "mergedValue (getProp (AList.update k u a) k') w' \<noteq> None"
    if mem: "(k', w') \<in> set b" for k' w'
  proof -
    from mem nb have "k' \<noteq> k" by force
    moreover from Cons.prems(2) mem have "mergedValue (getProp a k') w' \<noteq> None" by auto
    ultimately show ?thesis by (simp add: getProp_update)
  qed
  then have "\<forall>(k', w') \<in> set b. mergedValue (getProp (AList.update k u a) k') w' \<noteq> None"
    by auto
  from Cons.IH [OF d this] show ?case
    by (simp add: e deepMergeEntries_Cons deepMerge_local u del: deepMergeEntries.simps)
qed

lemma entry_size_less:
  "(k, Obj z) \<in> set c \<Longrightarrow>
   size_list (size_prod (\<lambda>x. 0) size) z < size_list (size_prod (\<lambda>x. 0) size) c"
  by (induction c) auto

lemma deepMergeEntries_defined:
  "uniqueKeys b \<Longrightarrow> disjointKeys a b \<Longrightarrow> \<exists>ab. deepMergeEntries a b = Some ab"
proof (induction a b rule: disjointKeys.induct)
  case (1 a b)
  have "mergedValue (getProp a k) w \<noteq> None" if mem: "(k, w) \<in> set b" for k w
  proof (cases "map_of a k")
    case None
    then show ?thesis by (simp add: getProp_def mergedValue_def)
  next
    case (Some v)
    from disjointKeys_entry [OF "1.prems"(2) mem Some]
    obtain x y where v: "v = Obj x" and w: "w = Obj y" and dj: "disjointKeys x y" by blast
    from uniqueKeys_entry [OF "1.prems"(1)] mem w have uq: "uniqueKeys y" by blast
    from "1.IH" [OF _ _ Some v w uq dj] mem obtain xy where "deepMergeEntries x y = Some xy"
      by auto
    with Some v w show ?thesis by (simp add: getProp_def mergedValue_def)
  qed
  then have "\<forall>(k, w) \<in> set b. mergedValue (getProp a k) w \<noteq> None" by auto
  with uniqueKeys_distinct [OF "1.prems"(1)] show ?case
    by (rule deepMergeEntries_defined_steps)
qed

lemma mergedValue_Obj:
  "mergedValue (Obj x) (Obj y) = map_option Obj (deepMergeEntries x y)"
  by (simp add: mergedValue_def)

lemma mergedValue_Undefined: "mergedValue Undefined w = Some w"
  by (simp add: mergedValue_def)

lemma deepMergeEntries_assoc:
  assumes "uniqueKeys b" and "uniqueKeys c"
    and "disjointKeys a b" and "disjointKeys a c" and "disjointKeys b c"
  shows "\<exists>ab bc r. deepMergeEntries a b = Some ab \<and> deepMergeEntries b c = Some bc
           \<and> deepMergeEntries ab c = Some r \<and> deepMergeEntries a bc = Some r"
  using assms
proof (induction "size_list (size_prod (\<lambda>x. 0) size) c" arbitrary: a b c rule: less_induct)
  case less
  note ub = less.prems(1) and uc = less.prems(2) and dab = less.prems(3)
    and dac = less.prems(4) and dbc = less.prems(5)
  from deepMergeEntries_defined [OF ub dab] obtain ab where ab: "deepMergeEntries a b = Some ab"
    by blast
  have entry: "case map_of b k of
              None \<Rightarrow> mergedValue (getProp a k) w \<noteq> None
            | Some v \<Rightarrow>
                (\<exists>r. Option.bind (mergedValue (getProp a k) v) (\<lambda>uv. mergedValue uv w) = Some r
                   \<and> Option.bind (mergedValue v w) (mergedValue (getProp a k)) = Some r)"
    if mem: "(k, w) \<in> set c" for k w
  proof (cases "map_of b k")
    case None
    show ?thesis
    proof (cases "map_of a k")
      case na: None
      with None show ?thesis by (simp add: getProp_def mergedValue_Undefined)
    next
      case (Some u)
      from disjointKeys_entry [OF dac mem Some]
      obtain x z where u: "u = Obj x" and w: "w = Obj z" and dj: "disjointKeys x z" by blast
      from uniqueKeys_entry [OF uc] mem w have "uniqueKeys z" by blast
      from deepMergeEntries_defined [OF this dj] obtain xz where "deepMergeEntries x z = Some xz"
        by blast
      with None Some u w show ?thesis by (simp add: getProp_def mergedValue_Obj)
    qed
  next
    case (Some v)
    from disjointKeys_entry [OF dbc mem Some]
    obtain y z where v: "v = Obj y" and w: "w = Obj z" and dyz: "disjointKeys y z" by blast
    from uniqueKeys_entry [OF uc] mem w have uz: "uniqueKeys z" by blast
    from Some have memb: "(k, v) \<in> set b" by (rule map_of_SomeD)
    from uniqueKeys_entry [OF ub] memb v have uy: "uniqueKeys y" by blast
    show ?thesis
    proof (cases "map_of a k")
      case None
      from deepMergeEntries_defined [OF uz dyz] obtain yz where "deepMergeEntries y z = Some yz"
        by blast
      with None Some v w show ?thesis
        by (simp add: getProp_def mergedValue_Undefined mergedValue_Obj)
    next
      case sa: (Some u)
      from disjointKeys_entry [OF dab memb sa]
      obtain x y' where u: "u = Obj x" and "v = Obj y'" and "disjointKeys x y'" by blast
      with v have dxy: "disjointKeys x y" by simp
      from disjointKeys_entry [OF dac mem sa] u w have dxz: "disjointKeys x z" by auto
      have "size_list (size_prod (\<lambda>x. 0) size) z < size_list (size_prod (\<lambda>x. 0) size) c"
        using mem w by (auto intro: entry_size_less)
      from less.hyps [OF this uy uz dxy dxz dyz]
      obtain xy yz r where "deepMergeEntries x y = Some xy" "deepMergeEntries y z = Some yz"
        "deepMergeEntries xy z = Some r" "deepMergeEntries x yz = Some r"
        by blast
      with Some sa u v w show ?thesis
        by (simp add: getProp_def mergedValue_Obj)
    qed
  qed
  then have entries: "\<forall>(k, w) \<in> set c.
           (case map_of b k of
              None \<Rightarrow> mergedValue (getProp a k) w \<noteq> None
            | Some v \<Rightarrow>
                (\<exists>r. Option.bind (mergedValue (getProp a k) v) (\<lambda>uv. mergedValue uv w) = Some r
                   \<and> Option.bind (mergedValue v w) (mergedValue (getProp a k)) = Some r))"
  proof (intro ballI)
    fix e assume e: "e \<in> set c"
    obtain k w where kw: "e = (k, w)" by (cases e)
    from entry [of k w] e kw show "case e of (k, w) \<Rightarrow>
           (case map_of b k of
              None \<Rightarrow> mergedValue (getProp a k) w \<noteq> None
            | Some v \<Rightarrow>
                (\<exists>r. Option.bind (mergedValue (getProp a k) v) (\<lambda>uv. mergedValue uv w) = Some r
                   \<and> Option.bind (mergedValue v w) (mergedValue (getProp a k)) = Some r))"
      by simp
  qed
  from deepMergeEntries_assoc_steps [OF uniqueKeys_distinct [OF ub] uniqueKeys_distinct [OF uc]
      ab entries]
  obtain r where "deepMergeEntries ab c = Some r"
    "Option.bind (deepMergeEntries b c) (deepMergeEntries a) = Some r"
    by blast
  then obtain bc where "deepMergeEntries b c = Some bc" "deepMergeEntries a bc = Some r"
    "deepMergeEntries ab c = Some r"
    by (cases "deepMergeEntries b c") auto
  with ab show ?case
    by - (rule exI [of _ ab], rule exI [of _ bc], rule exI [of _ r], simp)
qed

text \<open>
  Claim C9. Deep merge is associative on maps with disjoint structural keys. Merging an
  object \<open>b\<close> into \<open>a\<close> is the loop of \<open>_handleInitialResult\<close>, one \<open>_deepMerge\<close>
  per entry of \<open>b\<close>, that is \<open>deepMergeEntries a b\<close>. Take objects \<open>a\<close>, \<open>b\<close>,
  \<open>c\<close> without repeated keys that pairwise have disjoint structural keys; they may share
  keys that hold objects, whose subtrees the merge then descends into. All four merges
  succeed, and merging \<open>c\<close> into the merge of \<open>a\<close> and \<open>b\<close> gives the same object,
  entry for entry and in the same order, as merging into \<open>a\<close> the merge of \<open>b\<close> and
  \<open>c\<close>. The result has the keys of all three, and under a key where all three hold an
  object it holds the merge of the three subtrees.
\<close>

theorem deepMerge_assoc_disjoint:
  assumes "uniqueKeys b" and "uniqueKeys c"
    and "disjointKeys a b" and "disjointKeys a c" and "disjointKeys b c"
  shows "\<exists>ab bc r.
           deepMergeEntries a b = Some ab \<and> deepMergeEntries b c = Some bc
         \<and> deepMergeEntries ab c = Some r \<and> deepMergeEntries a bc = Some r
         \<and> fst ` set r = fst ` set a \<union> fst ` set b \<union> fst ` set c
         \<and> (\<forall>k x y z. map_of a k = Some (Obj x) \<and> map_of b k = Some (Obj y)
                 \<and> map_of c k = Some (Obj z) \<longrightarrow>
               (\<exists>xy xyz. deepMergeEntries x y = Some xy \<and> deepMergeEntries xy z = Some xyz
                  \<and> getProp r k = Obj xyz))"
proof -
  from deepMergeEntries_assoc [OF assms] obtain ab bc r where
    ab: "deepMergeEntries a b = Some ab" and bc: "deepMergeEntries b c = Some bc"
    and r: "deepMergeEntries ab c = Some r" and r': "deepMergeEntries a bc = Some r"
    by blast
  have keys: "fst ` set r = fst ` set a \<union> fst ` set b \<union> fst ` set c"
    using deepMergeEntries_keys [OF ab] deepMergeEntries_keys [OF r] by simp
  have shared: "map_of a k = Some (Obj x) \<and> map_of b k = Some (Obj y)
                 \<and> map_of c k = Some (Obj z) \<longrightarrow>
               (\<exists>xy xyz. deepMergeEntries x y = Some xy \<and> deepMergeEntries xy z = Some xyz
                  \<and> getProp r k = Obj xyz)" for k x y z
  proof (intro impI, elim conjE)
    assume that: "map_of a k = Some (Obj x)" "map_of b k = Some (Obj y)" "map_of c k = Some (Obj z)"
    from deepMergeEntries_lookup [OF uniqueKeys_distinct [OF assms(1)] that(2) ab] that(1)
    obtain xy where xy: "deepMergeEntries x y = Some xy" "getProp ab k = Obj xy"
      by (auto simp: getProp_def mergedValue_Obj)
    from deepMergeEntries_lookup [OF uniqueKeys_distinct [OF assms(2)] that(3) r] xy(2)
    obtain xyz where "deepMergeEntries xy z = Some xyz" "getProp r k = Obj xyz"
      by (auto simp: mergedValue_Obj)
    with xy show "\<exists>xy xyz. deepMergeEntries x y = Some xy \<and> deepMergeEntries xy z = Some xyz
                  \<and> getProp r k = Obj xyz" by blast
  qed
  show ?thesis
    using ab bc r r' keys shared
    by - (rule exI [of _ ab], rule exI [of _ bc], rule exI [of _ r], simp)
qed


theorem deepMerge_assoc_disjoint_witness:
  "deepMergeEntries [(''u'', Obj [(''n'', Str ''x'')])] [(''u'', Obj [(''e'', Str ''y'')])]
     = Some [(''u'', Obj [(''n'', Str ''x''), (''e'', Str ''y'')])]
   \<and> deepMergeEntries [(''u'', Obj [(''e'', Str ''y'')])] [(''u'', Obj [(''i'', Num 7)]), (''t'', Null)]
     = Some [(''u'', Obj [(''e'', Str ''y''), (''i'', Num 7)]), (''t'', Null)]
   \<and> deepMergeEntries [(''u'', Obj [(''n'', Str ''x''), (''e'', Str ''y'')])]
        [(''u'', Obj [(''i'', Num 7)]), (''t'', Null)]
     = Some [(''u'', Obj [(''n'', Str ''x''), (''e'', Str ''y''), (''i'', Num 7)]), (''t'', Null)]
   \<and> deepMergeEntries [(''u'', Obj [(''n'', Str ''x'')])]
        [(''u'', Obj [(''e'', Str ''y''), (''i'', Num 7)]), (''t'', Null)]
     = Some [(''u'', Obj [(''n'', Str ''x''), (''e'', Str ''y''), (''i'', Num 7)]), (''t'', Null)]"
proof -
  have ub: "uniqueKeys [(''u'', Obj [(''e'', Str ''y'')])]" by code_simp
  have uc: "uniqueKeys [(''u'', Obj [(''i'', Num 7)]), (''t'', Null)]" by code_simp
  have dab: "disjointKeys [(''u'', Obj [(''n'', Str ''x'')])] [(''u'', Obj [(''e'', Str ''y'')])]"
    by code_simp
  have dac: "disjointKeys [(''u'', Obj [(''n'', Str ''x'')])]
               [(''u'', Obj [(''i'', Num 7)]), (''t'', Null)]"
    by code_simp
  have dbc: "disjointKeys [(''u'', Obj [(''e'', Str ''y'')])]
               [(''u'', Obj [(''i'', Num 7)]), (''t'', Null)]"
    by code_simp
  from deepMerge_assoc_disjoint [OF ub uc dab dac dbc] show ?thesis
    by (simp add: deepMerge.simps getProp_def setProp_def)
qed

section \<open>Properties of the Composer\<close>

lemma getProp_fold_setProp:
  "getProp (fold (\<lambda>(key, value) f. setProp f key value) d flds) k =
     (case map_of (rev d) k of Some v \<Rightarrow> v | None \<Rightarrow> getProp flds k)"
proof (induction d arbitrary: flds)
  case Nil
  then show ?case by simp
next
  case (Cons e d)
  obtain k' v' where e: "e = (k', v')" by (cases e)
  show ?case
    by (simp add: e Cons.IH getProp_setProp map_add_def split: option.splits)
qed

lemma map_of_rev_distinct: "distinct (map fst d) \<Longrightarrow> map_of (rev d) = map_of d"
  by (rule ext) (metis distinct_rev map_of_inject_set rev_map set_rev)

text \<open>
  What the loop of \<open>Composer._handleResult\<close> does when the call passes the
  null-propagation gate and \<open>result.data\<close> is an object: every entry of
  \<open>result.data\<close> is assigned to the target \<open>fields\<close> under its key, and the other
  entries of \<open>fields\<close> keep their values.
\<close>

lemma handleResult_overwrites:
  assumes "\<not> (if par \<noteq> Undefined then readSlot par (if p = [] then None else Some (last p)) = Null
              else nld)"
    and "data result = Obj d" and "distinct (map fst d)"
  shows "fieldsAfter (handleResult g errs nld par flds trees result p)
           = fold (\<lambda>(key, value) f. setProp f key value) d flds
       \<and> (\<forall>k v. map_of d k = Some v \<longrightarrow>
             getProp (fieldsAfter (handleResult g errs nld par flds trees result p)) k = v)
       \<and> (\<forall>k. k \<notin> fst ` set d \<longrightarrow>
             getProp (fieldsAfter (handleResult g errs nld par flds trees result p)) k
               = getProp flds k)"
proof -
  have eq: "fieldsAfter (handleResult g errs nld par flds trees result p)
           = fold (\<lambda>(key, value) f. setProp f key value) d flds"
    using assms(1,2) by (simp add: handleResult_def Let_def)
  have absent: "map_of d k = None" if "k \<notin> fst ` set d" for k
    using that by (simp add: map_of_eq_None_iff)
  show ?thesis
    using assms(3) absent
    by (simp add: eq getProp_fold_setProp map_of_rev_distinct)
qed

text \<open>
  Claim C1. \<open>Composer._handleResult\<close> does not deep-merge: its loop is
  \<open>fields[key] = value\<close>, where \<open>Executor._handleInitialResult\<close> calls
  \<open>_deepMerge\<close>. Take \<open>User.profile\<close> served by two subschemas, one with
  \<open>Profile.avatar\<close> and one with \<open>Profile.bio\<close>: the Planner sends
  \<open>profile { bio }\<close> as a follow-up at \<open>user\<close>
  (\<open>createFieldPlan_shared_composite\<close> below). When its result
  \<open>{profile: {bio: "hi"}}\<close> is handled, the target is the \<open>user\<close> object the first
  subschema filled, which holds \<open>profile: {avatar: "a.png", ...}\<close>. The call replaces the
  \<open>profile\<close> object, so \<open>avatar\<close> is lost; the deep merge of \<open>Executor._deepMerge\<close>
  on the same target and data keeps both subtrees.
\<close>

theorem handleResult_replaces_subtree:
  "fieldsAfter (handleResult (map_of [(''User'', GqlType ''User'' ObjectKind)]) [] False
       (Obj [(''user'', Obj [(''profile'', Obj [(''avatar'', Str ''a.png''),
                                                (''__stitching__typename'', Str ''Profile'')]),
                             (''__stitching__typename'', Str ''User'')])])
       [(''profile'', Obj [(''avatar'', Str ''a.png''),
                           (''__stitching__typename'', Str ''Profile'')]),
        (''__stitching__typename'', Str ''User'')]
       None
       \<lparr>data = Obj [(''profile'', Obj [(''bio'', Str ''hi'')])], errors = None\<rparr>
       [PKey ''user''])
     = [(''profile'', Obj [(''bio'', Str ''hi'')]), (''__stitching__typename'', Str ''User'')]
   \<and> deepMergeEntries
        [(''profile'', Obj [(''avatar'', Str ''a.png''),
                            (''__stitching__typename'', Str ''Profile'')]),
         (''__stitching__typename'', Str ''User'')]
        [(''profile'', Obj [(''bio'', Str ''hi'')])]
     = Some [(''profile'', Obj [(''avatar'', Str ''a.png''),
                                (''__stitching__typename'', Str ''Profile''),
                                (''bio'', Str ''hi'')]),
             (''__stitching__typename'', Str ''User'')]"
  by (simp add: handleResult_def deepMerge.simps getProp_def setProp_def)

lemma handleResult_errorsAfter:
  "errorsAfter (handleResult g errs nld par flds trees r p) = errs @ resultErrors r"
  by (simp add: handleResult_def resultErrors_def Let_def split: option.splits)

lemma handleResult_nulled_mono:
  "nld \<Longrightarrow> nulledAfter (handleResult g errs nld par flds trees r p)"
  by (simp add: handleResult_def Let_def split: option.splits)

lemma handleResult_root_null:
  assumes "data r = Null \<or> data r = Undefined"
  shows "handleResult g errs nld Undefined flds trees r [] =
           \<lparr>errorsAfter = errs @ resultErrors r, nulledAfter = True, parentAfter = Undefined,
            fieldsAfter = flds, subFetches = Inr []\<rparr>"
  using assms by (auto simp: handleResult_def resultErrors_def Let_def split: option.splits)

lemma runCalls_accumulates:
  "runCalls g errs nld cs = Inr (errs', nld') \<Longrightarrow>
     errs' = errs @ concat (map (\<lambda>c. resultErrors (callResult c)) cs) \<and> (nld \<longrightarrow> nld')"
proof (induction cs arbitrary: errs nld)
  case Nil
  then show ?case by simp
next
  case (Cons c cs)
  let ?h = "handleResult g errs nld (callParent c) (callFields c) (callTrees c)
              (callResult c) (callPath c)"
  from Cons.prems have run: "runCalls g (errorsAfter ?h) (nulledAfter ?h) cs = Inr (errs', nld')"
    by (simp add: Let_def split: sum.splits)
  from Cons.IH [OF run] show ?case
    by (auto simp: handleResult_errorsAfter handleResult_nulled_mono)
qed

lemma runCalls_nulled:
  assumes "runCalls g errs nld cs = Inr (errs', nld')"
    and "c \<in> set cs" and "callParent c = Undefined" and "callPath c = []"
    and "data (callResult c) = Null \<or> data (callResult c) = Undefined"
  shows "nld'"
  using assms
proof (induction cs arbitrary: errs nld)
  case Nil
  then show ?case by simp
next
  case (Cons x cs)
  let ?h = "handleResult g errs nld (callParent x) (callFields x) (callTrees x)
              (callResult x) (callPath x)"
  from Cons.prems(1) have run: "runCalls g (errorsAfter ?h) (nulledAfter ?h) cs = Inr (errs', nld')"
    by (simp add: Let_def split: sum.splits)
  show ?case
  proof (cases "x = c")
    case True
    have "nulledAfter ?h"
      using Cons.prems(3-5) by (simp add: True handleResult_root_null)
    with runCalls_accumulates [OF run] show ?thesis by simp
  next
    case False
    with Cons.prems(2) have "c \<in> set cs" by simp
    from Cons.IH [OF run this Cons.prems(3-5)] show ?thesis .
  qed
qed

text \<open>
  Claim C2. When a result handled at the root (no parent, empty path) has \<open>data\<close> null
  or undefined, that call appends the result's errors, sets \<open>nulled\<close>, leaves the
  merged fields as they were and collects no follow-up; and whatever the other calls of
  the composition are and wherever the call stands among them, the response built at the
  end has \<open>data: null\<close> and carries the errors of all results, in the order the calls
  were made, because every call appends \<open>result.errors\<close> before it looks at the gate.
\<close>

theorem root_null_response:
  assumes "runCalls g [] False cs = Inr (errs, nld)"
    and "c \<in> set cs" and "callParent c = Undefined" and "callPath c = []"
    and "data (callResult c) = Null \<or> data (callResult c) = Undefined"
  shows "handleResult g errs0 nld0 Undefined (callFields c) (callTrees c) (callResult c) []
           = \<lparr>errorsAfter = errs0 @ resultErrors (callResult c), nulledAfter = True,
              parentAfter = Undefined, fieldsAfter = callFields c, subFetches = Inr []\<rparr>
       \<and> nld
       \<and> errs = concat (map (\<lambda>c. resultErrors (callResult c)) cs)
       \<and> buildResponse \<lparr>composerFields = flds, composerErrors = errs, nulled = nld\<rparr>
           = \<lparr>data = Null, errors = (if errs = [] then None else Some errs)\<rparr>"
proof -
  have n: nld using runCalls_nulled [OF assms] .
  have e: "errs = concat (map (\<lambda>c. resultErrors (callResult c)) cs)"
    using runCalls_accumulates [OF assms(1)] by simp
  show ?thesis
    using n e assms(5) by (simp add: handleResult_root_null buildResponse_def)
qed

theorem root_null_response_witness:
  "buildResponse \<lparr>composerFields = [(''a'', Num 1)],
       composerErrors = [GraphQLError ''e1'', GraphQLError ''e2''], nulled = True\<rparr>
     = \<lparr>data = Null, errors = Some [GraphQLError ''e1'', GraphQLError ''e2'']\<rparr>
   \<and> runCalls Map.empty [] False
        [\<lparr>callParent = Undefined, callFields = [], callTrees = None,
          callResult = \<lparr>data = Obj [(''a'', Num 1)], errors = Some [GraphQLError ''e1'']\<rparr>,
          callPath = []\<rparr>,
         \<lparr>callParent = Undefined, callFields = [(''a'', Num 1)], callTrees = None,
          callResult = \<lparr>data = Null, errors = None\<rparr>, callPath = []\<rparr>,
         \<lparr>callParent = Obj [(''u'', Obj [])], callFields = [], callTrees = None,
          callResult = \<lparr>data = Obj [(''b'', Num 2)], errors = Some [GraphQLError ''e2'']\<rparr>,
          callPath = [PKey ''u'']\<rparr>]
     = Inr ([GraphQLError ''e1'', GraphQLError ''e2''], True)"
  using root_null_response [where g = Map.empty and flds = "[(''a'', Num 1)]"
      and errs = "[GraphQLError ''e1'', GraphQLError ''e2'']" and nld = True
      and c = "\<lparr>callParent = Undefined, callFields = [(''a'', Num 1)], callTrees = None,
          callResult = \<lparr>data = Null, errors = None\<rparr>, callPath = []\<rparr>"
      and cs = "[\<lparr>callParent = Undefined, callFields = [], callTrees = None,
          callResult = \<lparr>data = Obj [(''a'', Num 1)], errors = Some [GraphQLError ''e1'']\<rparr>,
          callPath = []\<rparr>,
         \<lparr>callParent = Undefined, callFields = [(''a'', Num 1)], callTrees = None,
          callResult = \<lparr>data = Null, errors = None\<rparr>, callPath = []\<rparr>,
         \<lparr>callParent = Obj [(''u'', Obj [])], callFields = [], callTrees = None,
          callResult = \<lparr>data = Obj [(''b'', Num 2)], errors = Some [GraphQLError ''e2'']\<rparr>,
          callPath = [PKey ''u'']\<rparr>]"]
  by (simp add: handleResult_def resultErrors_def getProp_def setProp_def)

text \<open>
  The document \<open>Composer._createDocument\<close> builds for a follow-up fetch, next to the one
  \<open>Executor._createDocument\<close> builds from the same selections: the two agree exactly
  when the original operation is an anonymous query without variable definitions and the
  original document has no fragment.
\<close>

lemma subFetchDocument_shape:
  "subFetchDocument f =
     [OperationDefinition \<lparr>operation = QUERY, nameValue = None,
        variableDefinitions = None, operationSelections = map FieldSelection (fieldNodes f)\<rparr>]
   \<and> (subFetchDocument f = executorCreateDocument opn frags (map FieldSelection (fieldNodes f))
        \<longleftrightarrow> frags = [] \<and> operation opn = QUERY \<and> nameValue opn = None
            \<and> variableDefinitions opn = None)"
  by (cases opn) (auto simp: subFetchDocument_def createDocument_def executorCreateDocument_def)


lemma collect_extends:
  "collectSubFetches g acc par v tree p = Inr acc' \<Longrightarrow> \<exists>more. acc' = acc @ more"
  "collectElements g acc arr xs i tree p = Inr acc' \<Longrightarrow> \<exists>more. acc' = acc @ more"
  "walkStitchTrees g acc flds ts p = Inr acc' \<Longrightarrow> \<exists>more. acc' = acc @ more"
proof (induction g acc par v tree p and g acc arr xs i tree p and g acc flds ts p
    arbitrary: acc' and acc' and acc'
    rule: collectSubFetches_collectElements_walkStitchTrees.induct)
  case (1 getType acc par fieldsOrList tree p)
  show ?case
    using "1.prems" "1.IH"
    apply (simp add: collectSubFetches.simps [of getType acc par fieldsOrList] Let_def addPlans_def
        split: jsval.splits if_splits option.splits)
    apply blast
    done
next
  case (2 getType acc arr i tree p)
  then show ?case by simp
next
  case (3 getType acc arr x xs i tree p)
  then show ?case by (fastforce split: sum.splits)
next
  case (4 getType acc flds p)
  then show ?case by simp
next
  case (5 getType acc flds key tree rest p)
  then show ?case by (fastforce split: sum.splits if_splits)
qed


text \<open>
  \<open>_collectSubFetches\<close> on a stitched value that is an object or a primitive. It raises
  an invariant failure when the value has no \<open>__stitching__typename\<close>, or the entry does
  not name an object type of the super-schema, or the stitch tree has no field plan for
  the type. Otherwise it adds one fetch plan per subschema plan of the matching field plan
  and goes on to the stitch trees nested in that plan: with no nested tree the call
  returns with exactly those fetch plans added, and whenever it returns they are among the
  collected ones.
\<close>

lemma collectSubFetches_object_value:
  assumes "v \<noteq> Null" and "v \<noteq> Undefined" and "\<not> isArray v"
  shows "(stitchPointFailure g v tree \<longrightarrow>
            (\<exists>e. collectSubFetches g acc par v tree p = Inl e \<and> e \<noteq> TypeError))
       \<and> (\<not> stitchPointFailure g v tree \<longrightarrow>
            (\<exists>ty fp. g (toStringJS (getMember v ''__stitching__typename'')) = Some ty
               \<and> typeKind ty = ObjectKind
               \<and> map_of (fieldPlans tree) (typeName ty) = Some fp
               \<and> collectSubFetches g acc par v tree p
                   = walkStitchTrees g (addPlans acc (subschemaPlansC fp) par v p) v
                       (stitchTreesC fp) p
               \<and> (stitchTreesC fp = [] \<longrightarrow>
                    collectSubFetches g acc par v tree p
                      = Inr (addPlans acc (subschemaPlansC fp) par v p))
               \<and> (\<forall>acc'. collectSubFetches g acc par v tree p = Inr acc' \<longrightarrow>
                    (\<exists>more. acc' = addPlans acc (subschemaPlansC fp) par v p @ more))))"
proof (intro conjI impI)
  assume f: "stitchPointFailure g v tree"
  show "\<exists>e. collectSubFetches g acc par v tree p = Inl e \<and> e \<noteq> TypeError"
    apply (insert assms f)
    apply (subst collectSubFetches.simps)
    apply (cases v; auto simp: stitchPointFailure_def Let_def split: option.splits)
    done
next
  assume nf: "\<not> stitchPointFailure g v tree"
  let ?tn = "getMember v ''__stitching__typename''"
  from nf obtain ty fp where tn: "?tn \<noteq> Null" "?tn \<noteq> Undefined"
    and ty: "g (toStringJS ?tn) = Some ty" "typeKind ty = ObjectKind"
    and fp: "map_of (fieldPlans tree) (typeName ty) = Some fp"
    by (auto simp: stitchPointFailure_def Let_def split: option.splits)
  have eq: "collectSubFetches g acc par v tree p
        = walkStitchTrees g (addPlans acc (subschemaPlansC fp) par v p) v (stitchTreesC fp) p"
    apply (insert assms tn ty fp)
    apply (subst collectSubFetches.simps)
    apply (cases v; simp add: Let_def)
    done
  show "\<exists>ty fp. g (toStringJS ?tn) = Some ty
               \<and> typeKind ty = ObjectKind
               \<and> map_of (fieldPlans tree) (typeName ty) = Some fp
               \<and> collectSubFetches g acc par v tree p
                   = walkStitchTrees g (addPlans acc (subschemaPlansC fp) par v p) v
                       (stitchTreesC fp) p
               \<and> (stitchTreesC fp = [] \<longrightarrow>
                    collectSubFetches g acc par v tree p
                      = Inr (addPlans acc (subschemaPlansC fp) par v p))
               \<and> (\<forall>acc'. collectSubFetches g acc par v tree p = Inr acc' \<longrightarrow>
                    (\<exists>more. acc' = addPlans acc (subschemaPlansC fp) par v p @ more))"
    using ty fp eq collect_extends(3) [of g "addPlans acc (subschemaPlansC fp) par v p" v
        "stitchTreesC fp" p]
    by (intro exI [of _ ty] exI [of _ fp]) auto
qed

lemma collectSubFetches_object_value_example:
  "collectSubFetches (map_of [(''User'', GqlType ''User'' ObjectKind)]) []
      (Obj [(''user'', Obj [(''__stitching__typename'', Str ''User''), (''name'', Str ''x'')])])
      (Obj [(''__stitching__typename'', Str ''User''), (''name'', Str ''x'')])
      (StitchTree [(''User'', FieldPlanC
          [(Subschema 1, SubschemaPlanC [FieldNode None ''email'' [] None] None)] [])])
      [PKey ''user'']
   = Inr [(Subschema 1, \<lparr>fieldNodes = [FieldNode None ''email'' [] None], stitchTrees = None,
        parent = Obj [(''user'', Obj [(''__stitching__typename'', Str ''User''),
                                        (''name'', Str ''x'')])],
        target = Obj [(''__stitching__typename'', Str ''User''), (''name'', Str ''x'')],
        path = [PKey ''user'']\<rparr>)]
   \<and> collectSubFetches (map_of [(''User'', GqlType ''User'' ObjectKind)]) []
      (Obj [(''user'', Obj [(''name'', Str ''x'')])])
      (Obj [(''name'', Str ''x'')])
      (StitchTree [(''User'', FieldPlanC
          [(Subschema 1, SubschemaPlanC [FieldNode None ''email'' [] None] None)] [])])
      [PKey ''user'']
   = Inl MissingTypenameEntry"
  using collectSubFetches_object_value [where g = "map_of [(''User'', GqlType ''User'' ObjectKind)]"
      and acc = "[]"
      and par = "Obj [(''user'', Obj [(''__stitching__typename'', Str ''User''), (''name'', Str ''x'')])]"
      and v = "Obj [(''__stitching__typename'', Str ''User''), (''name'', Str ''x'')]"
      and tree = "StitchTree [(''User'', FieldPlanC
          [(Subschema 1, SubschemaPlanC [FieldNode None ''email'' [] None] None)] [])]"
      and p = "[PKey ''user'']"]
  by (simp add: collectSubFetches.simps getProp_def addPlans_def stitchPointFailure_def)

text \<open>
  Claim C7. \<open>_walkStitchTrees\<close> hands every entry that is not \<open>undefined\<close> to
  \<open>_collectSubFetches\<close>, a \<open>null\<close> one included, and \<open>_collectSubFetches\<close> hands
  it every element of a list. A stitched value \<open>null\<close> (a nullable field the subschema
  answered with \<open>null\<close>, or a \<open>null\<close> element of a list) has no
  \<open>__stitching__typename\<close> entry, which is the first of the three violations; but the
  source reads the entry off \<open>null\<close> before it checks any invariant, so the call ends
  with a \<open>TypeError\<close>, not with the invariant failure an object without the entry
  gets, and nothing is enqueued. The error leaves \<open>_handleResult\<close> as it is.
\<close>

theorem collectSubFetches_null_value:
  "getMember Null ''__stitching__typename'' = Undefined
   \<and> collectSubFetches (map_of [(''User'', GqlType ''User'' ObjectKind)]) []
      (Obj [(''user'', Obj [(''name'', Str ''x'')])]) (Obj [(''name'', Str ''x'')])
      (StitchTree [(''User'', FieldPlanC
          [(Subschema 1, SubschemaPlanC [FieldNode None ''email'' [] None] None)] [])])
      [PKey ''user'']
     = Inl MissingTypenameEntry
   \<and> walkStitchTrees (map_of [(''User'', GqlType ''User'' ObjectKind)]) []
      (Obj [(''user'', Null)])
      [(''user'', StitchTree [(''User'', FieldPlanC
          [(Subschema 1, SubschemaPlanC [FieldNode None ''email'' [] None] None)] [])])]
      []
     = Inl TypeError
   \<and> collectSubFetches (map_of [(''User'', GqlType ''User'' ObjectKind)]) []
      (Obj [(''users'', Arr [Null])]) (Arr [Null])
      (StitchTree [(''User'', FieldPlanC
          [(Subschema 1, SubschemaPlanC [FieldNode None ''email'' [] None] None)] [])])
      [PKey ''users'']
     = Inl TypeError
   \<and> subFetches (handleResult (map_of [(''User'', GqlType ''User'' ObjectKind)]) [] False
        Undefined []
        (Some [(''user'', StitchTree [(''User'', FieldPlanC
          [(Subschema 1, SubschemaPlanC [FieldNode None ''email'' [] None] None)] [])])])
        \<lparr>data = Obj [(''user'', Null)], errors = None\<rparr> [])
     = Inl TypeError"
  by (simp add: collectSubFetches.simps handleResult_def getProp_def setProp_def)

section \<open>Entry point: building the execution context\<close>

text \<open>
  \<open>buildExecutionContext(args)\<close>. \<open>assertValidSchema\<close> throws on an invalid
  subschema (\<open>schemasValid\<close> says whether all pass). The collaborators
  \<open>superSchema.getVariableValues\<close> and \<open>applySkipIncludeDirectives\<close> are parameters.
  \<open>findOperation\<close> is the loop over \<open>document.definitions\<close>, with the operation found
  so far and the fragments collected so far.
\<close>

record executionArgs =
  schemasValid :: bool
  document :: document
  operationName :: "string option"

record 'v executionContext =
  ctxOperation :: operationDefinition
  ctxFragments :: "fragmentDefinition list"
  ctxVariableDefinitions :: "string list"
  coercedVariableValues :: 'v

datatype 'v buildOutcome =
    SchemaAssertionThrown
  | BuildErrors "graphQLError list"
  | BuildContext "'v executionContext"

fun findOperation ::
  "string option \<Rightarrow> definitionNode list \<Rightarrow> operationDefinition option \<Rightarrow>
   fragmentDefinition list \<Rightarrow>
   graphQLError list + (operationDefinition option \<times> fragmentDefinition list)" where
  "findOperation opName [] opn frags = Inr (opn, frags)"
| "findOperation opName (OperationDefinition d # ds) opn frags =
     (if opName = None
      then (if opn \<noteq> None
            then Inl [GraphQLError
              ''Must provide operation name if query contains multiple operations.'']
            else findOperation opName ds (Some d) frags)
      else if nameValue d = opName then findOperation opName ds (Some d) frags
      else findOperation opName ds opn frags)"
| "findOperation opName (FragmentDefinition f # ds) opn frags =
     findOperation opName ds opn (frags @ [f])"
| "findOperation opName (OtherDefinition x # ds) opn frags =
     findOperation opName ds opn frags"

definition buildExecutionContext ::
  "(string list \<Rightarrow> graphQLError list + 'v) \<Rightarrow>
   ('v \<Rightarrow> selection list \<Rightarrow> selection list) \<Rightarrow> executionArgs \<Rightarrow> 'v buildOutcome" where
  "buildExecutionContext getVariableValues applySkipIncludeDirectives args =
     (if \<not> schemasValid args then SchemaAssertionThrown
      else case findOperation (operationName args) (document args) None [] of
        Inl errs \<Rightarrow> BuildErrors errs
      | Inr (None, frags) \<Rightarrow>
          (case operationName args of
             Some n \<Rightarrow> BuildErrors
               [GraphQLError (''Unknown operation named '' @ [CHR 0x22] @ n @ [CHR 0x22] @ ''.'')]
           | None \<Rightarrow> BuildErrors [GraphQLError ''Must provide an operation.''])
      | Inr (Some opn, frags) \<Rightarrow>
          (let varDefs = (case variableDefinitions opn of None \<Rightarrow> [] | Some ds \<Rightarrow> ds)
           in case getVariableValues varDefs of
                Inl errs \<Rightarrow> BuildErrors errs
              | Inr coerced \<Rightarrow>
                  BuildContext
                    \<lparr>ctxOperation =
                       opn\<lparr>operationSelections :=
                         applySkipIncludeDirectives coerced (operationSelections opn)\<rparr>,
                     ctxFragments =
                       map (\<lambda>f. f\<lparr>fragmentDefSelections :=
                         applySkipIncludeDirectives coerced (fragmentDefSelections f)\<rparr>) frags,
                     ctxVariableDefinitions = varDefs,
                     coercedVariableValues = coerced\<rparr>))"

fun isOperationDefinition :: "definitionNode \<Rightarrow> bool" where
  "isOperationDefinition (OperationDefinition _) = True"
| "isOperationDefinition _ = False"

lemma findOperation_multiple:
  "(opn \<noteq> None \<and> 1 \<le> length (filter isOperationDefinition ds))
     \<or> 2 \<le> length (filter isOperationDefinition ds) \<Longrightarrow>
   findOperation None ds opn frags =
     Inl [GraphQLError ''Must provide operation name if query contains multiple operations.'']"
proof (induction ds arbitrary: opn frags)
  case Nil
  then show ?case by simp
next
  case (Cons d ds)
  then show ?case by (cases d) auto
qed

lemma findOperation_no_match:
  "\<forall>d. OperationDefinition d \<in> set ds \<longrightarrow> nameValue d \<noteq> Some n \<Longrightarrow>
   \<exists>frags'. findOperation (Some n) ds opn frags = Inr (opn, frags')"
proof (induction ds arbitrary: opn frags)
  case Nil
  then show ?case by simp
next
  case (Cons d ds)
  then show ?case by (cases d) auto
qed

lemma findOperation_none:
  "filter isOperationDefinition ds = [] \<Longrightarrow>
   \<exists>frags'. findOperation None ds opn frags = Inr (opn, frags')"
proof (induction ds arbitrary: opn frags)
  case Nil
  then show ?case by simp
next
  case (Cons d ds)
  then show ?case by (cases d) (auto split: if_splits)
qed

text \<open>
  Claim C8. With valid subschemas, \<open>buildExecutionContext\<close> returns exactly one error:
  "Must provide operation name if query contains multiple operations." when no operation
  name is given and the document has more than one operation definition;
  "Unknown operation named "X"." when the name X is given and no operation definition has
  it; "Must provide an operation." when no name is given and the document has no
  operation definition.
\<close>

theorem buildExecutionContext_operation_errors:
  assumes "schemasValid args"
  shows "(operationName args = None \<and> 2 \<le> length (filter isOperationDefinition (document args))
            \<longrightarrow> buildExecutionContext gv ap args = BuildErrors [GraphQLError
                 ''Must provide operation name if query contains multiple operations.''])
       \<and> (\<forall>n. operationName args = Some n
              \<and> (\<forall>d. OperationDefinition d \<in> set (document args) \<longrightarrow> nameValue d \<noteq> Some n)
            \<longrightarrow> buildExecutionContext gv ap args = BuildErrors [GraphQLError
                 (''Unknown operation named '' @ [CHR 0x22] @ n @ [CHR 0x22] @ ''.'')])
       \<and> (operationName args = None \<and> filter isOperationDefinition (document args) = []
            \<longrightarrow> buildExecutionContext gv ap args = BuildErrors [GraphQLError
                 ''Must provide an operation.''])"
proof (intro conjI impI allI)
  assume "operationName args = None \<and> 2 \<le> length (filter isOperationDefinition (document args))"
  then show "buildExecutionContext gv ap args = BuildErrors [GraphQLError
                 ''Must provide operation name if query contains multiple operations.'']"
    using assms by (simp add: buildExecutionContext_def findOperation_multiple)
next
  fix n
  assume a: "operationName args = Some n
     \<and> (\<forall>d. OperationDefinition d \<in> set (document args) \<longrightarrow> nameValue d \<noteq> Some n)"
  then obtain frags' where "findOperation (Some n) (document args) None [] = Inr (None, frags')"
    using findOperation_no_match [of "document args" n None "[]"] by auto
  then show "buildExecutionContext gv ap args = BuildErrors [GraphQLError
                 (''Unknown operation named '' @ [CHR 0x22] @ n @ [CHR 0x22] @ ''.'')]"
    using assms a by (simp add: buildExecutionContext_def)
next
  assume a: "operationName args = None \<and> filter isOperationDefinition (document args) = []"
  then obtain frags' where "findOperation None (document args) None [] = Inr (None, frags')"
    using findOperation_none [of "document args" None "[]"] by auto
  then show "buildExecutionContext gv ap args = BuildErrors [GraphQLError
                 ''Must provide an operation.'']"
    using assms a by (simp add: buildExecutionContext_def)
qed

theorem buildExecutionContext_operation_errors_witness:
  "buildExecutionContext (\<lambda>ds. Inr ()) (\<lambda>v sels. sels)
      \<lparr>schemasValid = True,
       document = [OperationDefinition \<lparr>operation = QUERY, nameValue = Some ''A'',
                     variableDefinitions = None, operationSelections = []\<rparr>,
                   OperationDefinition \<lparr>operation = QUERY, nameValue = Some ''B'',
                     variableDefinitions = None, operationSelections = []\<rparr>],
       operationName = None\<rparr>
     = BuildErrors [GraphQLError
         ''Must provide operation name if query contains multiple operations.'']
   \<and> buildExecutionContext (\<lambda>ds. Inr ()) (\<lambda>v sels. sels)
      \<lparr>schemasValid = True,
       document = [OperationDefinition \<lparr>operation = QUERY, nameValue = Some ''A'',
                     variableDefinitions = None, operationSelections = []\<rparr>],
       operationName = Some ''X''\<rparr>
     = BuildErrors [GraphQLError ''Unknown operation named \"X\".'']
   \<and> buildExecutionContext (\<lambda>ds. Inr ()) (\<lambda>v sels. sels)
      \<lparr>schemasValid = True,
       document = [FragmentDefinition \<lparr>fragmentName = ''F'', fragmentTypeCondition = ''T'',
                     fragmentDefSelections = []\<rparr>],
       operationName = None\<rparr>
     = BuildErrors [GraphQLError ''Must provide an operation.'']"
  using buildExecutionContext_operation_errors [where gv = "\<lambda>ds. Inr ()" and ap = "\<lambda>v sels. sels"
      and args = "\<lparr>schemasValid = True,
       document = [OperationDefinition \<lparr>operation = QUERY, nameValue = Some ''A'',
                     variableDefinitions = None, operationSelections = []\<rparr>,
                   OperationDefinition \<lparr>operation = QUERY, nameValue = Some ''B'',
                     variableDefinitions = None, operationSelections = []\<rparr>],
       operationName = None\<rparr>"]
  by (simp add: buildExecutionContext_def)

section \<open>Planner\<close>

text \<open>
  What the Planner asks of the super-schema: the subschema sets by type name and field
  name (a \<open>Set\<close> is iterated in insertion order, here a list), the merged types by name
  (\<open>getType\<close>), the named return type of a field definition (\<open>getNamedType\<close> of
  \<open>getFieldDef(parentType, fieldName).type\<close>), the possible types of an abstract type,
  and \<open>mergedSchema.isSubType\<close>. The class that computes them is not among the sources
  at hand, so they are parameters of the model.
\<close>

record superSchema =
  subschemaSetsByTypeAndField :: "string \<rightharpoonup> (string \<rightharpoonup> subschema list)"
  mergedTypes :: "string \<rightharpoonup> gqlType"
  getFieldDef :: "gqlType \<Rightarrow> string \<Rightarrow> gqlType option"
  getPossibleTypes :: "gqlType \<Rightarrow> gqlType list"
  isSubType :: "gqlType \<Rightarrow> gqlType \<Rightarrow> bool"

datatype plannerError = UnexpectedFragmentSpread | InvalidTypeCondition | PlannerTypeError

definition isAbstractType :: "gqlType \<Rightarrow> bool" where
  "isAbstractType ty = (typeKind ty = InterfaceKind \<or> typeKind ty = UnionKind)"

definition isCompositeType :: "gqlType \<Rightarrow> bool" where
  "isCompositeType ty =
     (typeKind ty = ObjectKind \<or> typeKind ty = InterfaceKind \<or> typeKind ty = UnionKind)"

text \<open>
  Modelled from the spec: \<open>utilities/appendToArray\<close> is not among the sources at hand.
  The specification words its use on the field nodes of a subschema plan as "append the
  field to that subschema-plan's field nodes": the result is the array with the item added
  at the end.
\<close>

definition appendToArray :: "'a list \<Rightarrow> 'a \<Rightarrow> 'a list" where
  "appendToArray arr item = arr @ [item]"

record selectionSplit =
  ownSelections :: "selection list"
  otherSelections :: "selection list"

definition stitchingTypenameField :: selection where
  "stitchingTypenameField =
     FieldSelection (FieldNode (Some ''__stitching__typename'') ''__typename'' [] None)"

text \<open>
  An exception thrown by a callee ends the caller as well: \<open>bindE\<close> passes an error on
  and hands a result to the rest of the function.
\<close>

definition bindE :: "'e + 'a \<Rightarrow> ('a \<Rightarrow> 'e + 'b) \<Rightarrow> 'e + 'b" where
  "bindE m f = (case m of Inl e \<Rightarrow> Inl e | Inr x \<Rightarrow> f x)"

lemma bindE_cong [fundef_cong]:
  "m = m' \<Longrightarrow> (\<And>x. m' = Inr x \<Longrightarrow> f x = f' x) \<Longrightarrow> bindE m f = bindE m' f'"
  by (cases m') (simp_all add: bindE_def)

lemma bindE_simps [simp]:
  "bindE (Inl e) f = Inl e"
  "bindE (Inr x) f = f x"
  by (simp_all add: bindE_def)

text \<open>
  The pieces of \<open>Planner._createSelectionSplit\<close> and of the functions it calls:
  the fresh split, the injection of the synthetic field at the end of
  \<open>_createSelectionSplit\<close>, the refined type of an inline fragment (with its
  \<open>invariant(isCompositeType(refinedType))\<close>), the lookup
  \<open>subschemaSetsByTypeAndField[parentType.name][field.name.value]\<close> (a \<open>TypeError\<close>
  when the type has no entry), \<open>subschemaSet.has(subschema)\<close>, the classification of
  a leaf, and the two \<open>if (... .length)\<close> blocks that append the rebuilt node for each
  non-empty half.
\<close>

definition emptySplit :: selectionSplit where
  "emptySplit = \<lparr>ownSelections = [], otherSelections = []\<rparr>"

definition finishSelectionSplit :: "subschema option \<Rightarrow> selectionSplit \<Rightarrow> selectionSplit" where
  "finishSelectionSplit fromSubschema split =
     (if fromSubschema = None \<and> length (otherSelections split) > 0
      then split\<lparr>ownSelections := appendToArray (ownSelections split) stitchingTypenameField\<rparr>
      else split)"

definition refinedTypeOf :: "superSchema \<Rightarrow> gqlType \<Rightarrow> string option \<Rightarrow> plannerError + gqlType" where
  "refinedTypeOf S parentType tc =
     (case (case tc of None \<Rightarrow> Some parentType | Some n \<Rightarrow> mergedTypes S n) of
        None \<Rightarrow> Inl InvalidTypeCondition
      | Some refinedType \<Rightarrow>
          if isCompositeType refinedType then Inr refinedType else Inl InvalidTypeCondition)"

definition subschemaSetFor ::
  "superSchema \<Rightarrow> gqlType \<Rightarrow> string \<Rightarrow> plannerError + subschema list option" where
  "subschemaSetFor S parentType nm =
     (case subschemaSetsByTypeAndField S (typeName parentType) of
        None \<Rightarrow> Inl PlannerTypeError
      | Some subschemaSetsByField \<Rightarrow> Inr (subschemaSetsByField nm))"

definition hasSubschema :: "subschema list \<Rightarrow> subschema option \<Rightarrow> bool" where
  "hasSubschema subschemaSet subschema =
     (case subschema of None \<Rightarrow> False | Some s \<Rightarrow> s \<in> set subschemaSet)"

definition addLeafToSplit ::
  "selectionSplit \<Rightarrow> subschema list \<Rightarrow> subschema option \<Rightarrow> fieldNode \<Rightarrow> selectionSplit" where
  "addLeafToSplit split subschemaSet subschema field =
     (if hasSubschema subschemaSet subschema
      then split\<lparr>ownSelections := appendToArray (ownSelections split) (FieldSelection field)\<rparr>
      else split\<lparr>otherSelections := appendToArray (otherSelections split) (FieldSelection field)\<rparr>)"

definition addHalves ::
  "selectionSplit \<Rightarrow> (selection list \<Rightarrow> selection) \<Rightarrow> selectionSplit \<Rightarrow> selectionSplit" where
  "addHalves split rebuild sub =
     (let split1 =
        (if length (ownSelections sub) > 0
         then split\<lparr>ownSelections :=
                appendToArray (ownSelections split) (rebuild (ownSelections sub))\<rparr>
         else split)
      in if length (otherSelections sub) > 0
         then split1\<lparr>otherSelections :=
                appendToArray (otherSelections split1) (rebuild (otherSelections sub))\<rparr>
         else split1)"

text \<open>The size of a selection, for the termination of the Planner's recursions.\<close>

fun selectionSize :: "selection \<Rightarrow> nat" and fieldNodeSize :: "fieldNode \<Rightarrow> nat" where
  "selectionSize (FieldSelection f) = fieldNodeSize f"
| "selectionSize (InlineFragment tc sels) = 1 + sum_list (map selectionSize sels)"
| "selectionSize (FragmentSpread n) = 1"
| "fieldNodeSize (FieldNode al nm args ss) =
     1 + (case ss of None \<Rightarrow> 0 | Some sels \<Rightarrow> sum_list (map selectionSize sels))"

lemma fieldNodeSize_pos [simp]: "0 < fieldNodeSize f"
  by (cases f) simp

lemma selectionSize_pos [simp]: "0 < selectionSize s"
  by (cases s) simp_all

text \<open>
  \<open>Planner._createSelectionSplit\<close>, \<open>_processSelectionsForSelectionSplit\<close>,
  \<open>_addFieldToSelectionSplit\<close> and \<open>_addFragmentToSelectionSplit\<close>. The source
  mutates the split it is given; the model returns it.
\<close>

function createSelectionSplit ::
    "superSchema \<Rightarrow> gqlType \<Rightarrow> selection list \<Rightarrow> subschema option \<Rightarrow> subschema option \<Rightarrow>
     plannerError + selectionSplit"
  and processSelectionsForSelectionSplit ::
    "superSchema \<Rightarrow> selectionSplit \<Rightarrow> subschema option \<Rightarrow> subschema option \<Rightarrow> gqlType \<Rightarrow>
     selection list \<Rightarrow> plannerError + selectionSplit"
  and addFieldToSelectionSplit ::
    "superSchema \<Rightarrow> selectionSplit \<Rightarrow> subschema option \<Rightarrow> subschema option \<Rightarrow> gqlType \<Rightarrow>
     fieldNode \<Rightarrow> plannerError + selectionSplit"
  and addFragmentToSelectionSplit ::
    "superSchema \<Rightarrow> selectionSplit \<Rightarrow> subschema option \<Rightarrow> subschema option \<Rightarrow> gqlType \<Rightarrow>
     string option \<Rightarrow> selection list \<Rightarrow> plannerError + selectionSplit"
where
  "createSelectionSplit S parentType sels subschema fromSubschema =
     bindE (processSelectionsForSelectionSplit S emptySplit subschema fromSubschema parentType sels)
       (\<lambda>split. Inr (finishSelectionSplit fromSubschema split))"
| "processSelectionsForSelectionSplit S split subschema fromSubschema parentType [] = Inr split"
| "processSelectionsForSelectionSplit S split subschema fromSubschema parentType (FieldSelection f # sels) =
     bindE (addFieldToSelectionSplit S split subschema fromSubschema parentType f)
       (\<lambda>split'. processSelectionsForSelectionSplit S split' subschema fromSubschema parentType sels)"
| "processSelectionsForSelectionSplit S split subschema fromSubschema parentType
       (InlineFragment tc fsels # sels) =
     bindE (refinedTypeOf S parentType tc)
       (\<lambda>refinedType.
          bindE (addFragmentToSelectionSplit S split subschema fromSubschema refinedType tc fsels)
            (\<lambda>split'. processSelectionsForSelectionSplit S split' subschema fromSubschema
                         parentType sels))"
| "processSelectionsForSelectionSplit S split subschema fromSubschema parentType
       (FragmentSpread n # sels) = Inl UnexpectedFragmentSpread"
| "addFieldToSelectionSplit S split subschema fromSubschema parentType (FieldNode al nm args None) =
     bindE (subschemaSetFor S parentType nm)
       (\<lambda>found. case found of
            None \<Rightarrow> Inr split
          | Some subschemaSet \<Rightarrow>
              Inr (addLeafToSplit split subschemaSet subschema (FieldNode al nm args None)))"
| "addFieldToSelectionSplit S split subschema fromSubschema parentType
       (FieldNode al nm args (Some subsels)) =
     bindE (subschemaSetFor S parentType nm)
       (\<lambda>found. case found of
            None \<Rightarrow> Inr split
          | Some subschemaSet \<Rightarrow>
              (case getFieldDef S parentType nm of
                 None \<Rightarrow> Inr split
               | Some fieldType \<Rightarrow>
                   bindE (createSelectionSplit S fieldType subsels subschema fromSubschema)
                     (\<lambda>sub. Inr (addHalves split
                                 (\<lambda>half. FieldSelection (FieldNode al nm args (Some half))) sub))))"
| "addFragmentToSelectionSplit S split subschema fromSubschema parentType tc fsels =
     bindE (processSelectionsForSelectionSplit S emptySplit subschema fromSubschema parentType fsels)
       (\<lambda>frag. Inr (addHalves split (\<lambda>half. InlineFragment tc half) frag))"
  by pat_completeness auto

termination
  by (relation "measure (\<lambda>x. case x of
        Inl (Inl (S, pt, sels, sub, frm)) \<Rightarrow> 3 * sum_list (map selectionSize sels) + 2
      | Inl (Inr (S, split, sub, frm, pt, sels)) \<Rightarrow> 3 * sum_list (map selectionSize sels) + 1
      | Inr (Inl (S, split, sub, frm, pt, f)) \<Rightarrow> 3 * fieldNodeSize f
      | Inr (Inr (S, split, sub, frm, pt, tc, fsels)) \<Rightarrow>
          3 * sum_list (map selectionSize fsels) + 2)")
    auto


declare createSelectionSplit.simps [simp del]


lemma bindE_Inr_iff: "bindE m f = Inr y \<longleftrightarrow> (\<exists>x. m = Inr x \<and> f x = Inr y)"
  by (cases m) simp_all

definition otherSize :: "selectionSplit \<Rightarrow> nat" where
  "otherSize split = sum_list (map selectionSize (otherSelections split))"

lemma otherSize_finish [simp]: "otherSize (finishSelectionSplit frm split) = otherSize split"
  by (simp add: finishSelectionSplit_def otherSize_def)

lemma otherSize_addLeaf:
  "otherSize (addLeafToSplit split cands sub f) \<le> otherSize split + fieldNodeSize f"
  by (simp add: addLeafToSplit_def otherSize_def appendToArray_def)

lemma otherSize_addHalves:
  "otherSize (addHalves split rebuild sub)
     \<le> otherSize split + selectionSize (rebuild (otherSelections sub))"
  by (simp add: addHalves_def otherSize_def appendToArray_def Let_def)

lemma otherSize_addHalves_fragment:
  "otherSize (addHalves split (\<lambda>half. InlineFragment tc half) sub)
     \<le> otherSize split + 1 + otherSize sub"
  using otherSize_addHalves [of split "\<lambda>half. InlineFragment tc half" sub]
  by (simp add: otherSize_def)

lemma otherSize_addHalves_field:
  "otherSize (addHalves split (\<lambda>half. FieldSelection (FieldNode al nm args (Some half))) sub)
     \<le> otherSize split + 1 + otherSize sub"
  using otherSize_addHalves
    [of split "\<lambda>half. FieldSelection (FieldNode al nm args (Some half))" sub]
  by (simp add: otherSize_def)

lemma otherSize_empty [simp]: "otherSize emptySplit = 0"
  by (simp add: otherSize_def emptySplit_def)

lemma split_other_size:
  "createSelectionSplit S pt sels sub frm = Inr sp \<Longrightarrow>
     otherSize sp \<le> sum_list (map selectionSize sels)"
  "processSelectionsForSelectionSplit S split sub frm pt sels = Inr sp \<Longrightarrow>
     otherSize sp \<le> otherSize split + sum_list (map selectionSize sels)"
  "addFieldToSelectionSplit S split sub frm pt f = Inr sp \<Longrightarrow>
     otherSize sp \<le> otherSize split + fieldNodeSize f"
  "addFragmentToSelectionSplit S split sub frm pt tc fsels = Inr sp \<Longrightarrow>
     otherSize sp \<le> otherSize split + 1 + sum_list (map selectionSize fsels)"
proof (induction S pt sels sub frm and S split sub frm pt sels and S split sub frm pt f
    and S split sub frm pt tc fsels
    arbitrary: sp and sp and sp and sp
    rule: createSelectionSplit_processSelectionsForSelectionSplit_addFieldToSelectionSplit_addFragmentToSelectionSplit.induct)
  case (1 S parentType sels subschema fromSubschema)
  from "1.prems" obtain s0 where
    p: "processSelectionsForSelectionSplit S emptySplit subschema fromSubschema parentType sels = Inr s0"
    and sp: "sp = finishSelectionSplit fromSubschema s0"
    by (auto simp: createSelectionSplit.simps bindE_Inr_iff)
  from "1.IH" [OF p] show ?case by (simp add: sp)
next
  case (2 S split subschema fromSubschema parentType)
  then show ?case by simp
next
  case (3 S split subschema fromSubschema parentType f sels)
  from "3.prems" obtain s1 where
    a: "addFieldToSelectionSplit S split subschema fromSubschema parentType f = Inr s1"
    and r: "processSelectionsForSelectionSplit S s1 subschema fromSubschema parentType sels = Inr sp"
    by (auto simp: bindE_Inr_iff)
  from "3.IH"(1) [OF a] "3.IH"(2) [OF a r] show ?case by simp
next
  case (4 S split subschema fromSubschema parentType tc fsels sels)
  from "4.prems" obtain rt s1 where
    t: "refinedTypeOf S parentType tc = Inr rt"
    and a: "addFragmentToSelectionSplit S split subschema fromSubschema rt tc fsels = Inr s1"
    and r: "processSelectionsForSelectionSplit S s1 subschema fromSubschema parentType sels = Inr sp"
    by (auto simp: bindE_Inr_iff)
  from "4.IH"(1) [OF t a] "4.IH"(2) [OF t a r] show ?case by simp
next
  case (5 S split subschema fromSubschema parentType n sels)
  then show ?case by simp
next
  case (6 S split subschema fromSubschema parentType al nm args)
  then show ?case
    using otherSize_addLeaf [of split _ subschema "FieldNode al nm args None"]
    by (auto simp: bindE_Inr_iff split: option.splits)
next
  case (7 S split subschema fromSubschema parentType al nm args subsels)
  show ?case
  proof (cases "\<exists>found ft sub. subschemaSetFor S parentType nm = Inr (Some found)
      \<and> getFieldDef S parentType nm = Some ft
      \<and> createSelectionSplit S ft subsels subschema fromSubschema = Inr sub")
    case True
    then obtain found ft sub where f: "subschemaSetFor S parentType nm = Inr (Some found)"
      and g: "getFieldDef S parentType nm = Some ft"
      and c: "createSelectionSplit S ft subsels subschema fromSubschema = Inr sub" by blast
    from "7.prems" f g c have sp:
      "sp = addHalves split (\<lambda>half. FieldSelection (FieldNode al nm args (Some half))) sub"
      by simp
    from "7.IH" [OF f refl g c] have "otherSize sub \<le> sum_list (map selectionSize subsels)" .
    then show ?thesis
      using otherSize_addHalves_field [of split al nm args sub]
      by (simp add: sp)
  next
    case False
    with "7.prems" have "sp = split"
      by (auto simp: bindE_Inr_iff split: option.splits)
    then show ?thesis by simp
  qed
next
  case (8 S split subschema fromSubschema parentType tc fsels)
  from "8.prems" obtain frag where
    p: "processSelectionsForSelectionSplit S emptySplit subschema fromSubschema parentType fsels = Inr frag"
    and sp: "sp = addHalves split (\<lambda>half. InlineFragment tc half) frag"
    by (auto simp: bindE_Inr_iff)
  from "8.IH" [OF p] show ?case
    using otherSize_addHalves_fragment [of split tc frag]
    by (simp add: sp)
qed

text \<open>
  Claim C4, as the code has it. \<open>_createSelectionSplit\<close> first classifies the
  selections; when \<open>fromSubschema\<close> is undefined and \<open>otherSelections\<close> ended
  non-empty, it appends the field \<open>__typename\<close> aliased \<open>__stitching__typename\<close> to
  \<open>ownSelections\<close>, so the synthetic field is the last element of the returned
  \<open>ownSelections\<close>; when \<open>fromSubschema\<close> is defined or \<open>otherSelections\<close> is
  empty, \<open>ownSelections\<close> is returned as classified, with no field added.
\<close>

theorem createSelectionSplit_typename_last:
  assumes "createSelectionSplit S parentType sels subschema frm = Inr split"
  shows "\<exists>split0.
           processSelectionsForSelectionSplit S emptySplit subschema frm parentType sels = Inr split0
         \<and> otherSelections split = otherSelections split0
         \<and> (if frm = None \<and> otherSelections split0 \<noteq> []
            then ownSelections split = ownSelections split0 @ [stitchingTypenameField]
                 \<and> last (ownSelections split) = stitchingTypenameField
            else ownSelections split = ownSelections split0)"
  using assms
  by (auto simp: createSelectionSplit.simps bindE_Inr_iff finishSelectionSplit_def
      appendToArray_def)

theorem createSelectionSplit_typename_last_witness:
  "processSelectionsForSelectionSplit
      \<lparr>subschemaSetsByTypeAndField =
         map_of [(''User'', map_of [(''a'', [Subschema 1]), (''b'', [Subschema 2])])],
       mergedTypes = map_of [(''User'', GqlType ''User'' ObjectKind)],
       getFieldDef = (\<lambda>t n. None), getPossibleTypes = (\<lambda>t. []), isSubType = (\<lambda>a b. False)\<rparr>
      emptySplit (Some (Subschema 1)) None (GqlType ''User'' ObjectKind)
      [FieldSelection (FieldNode None ''b'' [] None)]
   = Inr \<lparr>ownSelections = [],
          otherSelections = [FieldSelection (FieldNode None ''b'' [] None)]\<rparr>
   \<and> createSelectionSplit
      \<lparr>subschemaSetsByTypeAndField =
         map_of [(''User'', map_of [(''a'', [Subschema 1]), (''b'', [Subschema 2])])],
       mergedTypes = map_of [(''User'', GqlType ''User'' ObjectKind)],
       getFieldDef = (\<lambda>t n. None), getPossibleTypes = (\<lambda>t. []), isSubType = (\<lambda>a b. False)\<rparr>
      (GqlType ''User'' ObjectKind)
      [FieldSelection (FieldNode None ''b'' [] None)]
      (Some (Subschema 1)) None
   = Inr \<lparr>ownSelections = [stitchingTypenameField],
          otherSelections = [FieldSelection (FieldNode None ''b'' [] None)]\<rparr>"
  using createSelectionSplit_typename_last [where S =
      "\<lparr>subschemaSetsByTypeAndField =
         map_of [(''User'', map_of [(''a'', [Subschema 1]), (''b'', [Subschema 2])])],
       mergedTypes = map_of [(''User'', GqlType ''User'' ObjectKind)],
       getFieldDef = (\<lambda>t n. None), getPossibleTypes = (\<lambda>t. []), isSubType = (\<lambda>a b. False)\<rparr>"
      and parentType = "GqlType ''User'' ObjectKind"
      and sels = "[FieldSelection (FieldNode None ''b'' [] None)]"
      and subschema = "Some (Subschema 1)" and frm = None
      and split = "\<lparr>ownSelections = [stitchingTypenameField],
          otherSelections = [FieldSelection (FieldNode None ''b'' [] None)]\<rparr>"]
  by (simp add: createSelectionSplit.simps subschemaSetFor_def addLeafToSplit_def hasSubschema_def
      appendToArray_def emptySplit_def finishSelectionSplit_def)

text \<open>
  Claim C4 as stated fails: with one selection the subschema resolves (\<open>a\<close>) and one it
  does not (\<open>b\<close>), the returned \<open>ownSelections\<close> is \<open>a\<close> followed by the synthetic
  field, whose first element is \<open>a\<close>.
\<close>

theorem createSelectionSplit_prepend_counterexample:
  "createSelectionSplit
      \<lparr>subschemaSetsByTypeAndField =
         map_of [(''User'', map_of [(''a'', [Subschema 1]), (''b'', [Subschema 2])])],
       mergedTypes = map_of [(''User'', GqlType ''User'' ObjectKind)],
       getFieldDef = (\<lambda>t n. None), getPossibleTypes = (\<lambda>t. []), isSubType = (\<lambda>a b. False)\<rparr>
      (GqlType ''User'' ObjectKind)
      [FieldSelection (FieldNode None ''a'' [] None), FieldSelection (FieldNode None ''b'' [] None)]
      (Some (Subschema 1)) None
   = Inr \<lparr>ownSelections = [FieldSelection (FieldNode None ''a'' [] None),
                            FieldSelection (FieldNode (Some ''__stitching__typename'')
                                              ''__typename'' [] None)],
          otherSelections = [FieldSelection (FieldNode None ''b'' [] None)]\<rparr>
   \<and> FieldSelection (FieldNode None ''a'' [] None) \<noteq> stitchingTypenameField"
  by (simp add: createSelectionSplit.simps subschemaSetFor_def addLeafToSplit_def hasSubschema_def
      appendToArray_def emptySplit_def finishSelectionSplit_def stitchingTypenameField_def)

text \<open>
  \<open>Planner._doesFragmentConditionMatch\<close> and \<open>Planner._collectSubFieldsImpl\<close>
  (\<open>typeFromAST\<close> of a named type is the lookup of the merged type; the memoisation
  of \<open>_collectSubFields\<close> does not change what it returns).
\<close>

definition doesFragmentConditionMatch :: "superSchema \<Rightarrow> string option \<Rightarrow> gqlType \<Rightarrow> bool" where
  "doesFragmentConditionMatch S tc ty =
     (case tc of
        None \<Rightarrow> True
      | Some n \<Rightarrow>
          (case mergedTypes S n of
             None \<Rightarrow> False
           | Some conditionalType \<Rightarrow>
               if conditionalType = ty then True
               else if isAbstractType conditionalType then isSubType S conditionalType ty
               else False))"

function collectSubFields ::
  "superSchema \<Rightarrow> gqlType \<Rightarrow> selection list \<Rightarrow> fieldNode list \<Rightarrow>
   plannerError + fieldNode list" where
  "collectSubFields S runtimeType [] nodes = Inr nodes"
| "collectSubFields S runtimeType (FieldSelection f # sels) nodes =
     collectSubFields S runtimeType sels (appendToArray nodes f)"
| "collectSubFields S runtimeType (InlineFragment tc fsels # sels) nodes =
     (if \<not> doesFragmentConditionMatch S tc runtimeType
      then collectSubFields S runtimeType sels nodes
      else bindE (collectSubFields S runtimeType fsels nodes)
             (\<lambda>newFieldNodes. collectSubFields S runtimeType sels newFieldNodes))"
| "collectSubFields S runtimeType (FragmentSpread n # sels) nodes =
     Inl UnexpectedFragmentSpread"
  by pat_completeness auto

termination
  by (relation "measure (\<lambda>(S, rt, sels, acc). sum_list (map selectionSize sels))") auto

lemma collectSubFields_size:
  "collectSubFields S rt sels acc = Inr fns \<Longrightarrow>
   sum_list (map fieldNodeSize fns)
     \<le> sum_list (map fieldNodeSize acc) + sum_list (map selectionSize sels)"
proof (induction S rt sels acc arbitrary: fns rule: collectSubFields.induct)
  case (1 S runtimeType nodes)
  then show ?case by simp
next
  case (2 S runtimeType f sels nodes)
  from "2.IH" [OF "2.prems" [simplified]] show ?case
    by (simp add: appendToArray_def)
next
  case (3 S runtimeType tc fsels sels nodes)
  show ?case
  proof (cases "doesFragmentConditionMatch S tc runtimeType")
    case True
    with "3.prems" obtain mid where
      a: "collectSubFields S runtimeType fsels nodes = Inr mid"
      and b: "collectSubFields S runtimeType sels mid = Inr fns"
      by (auto simp: bindE_Inr_iff)
    from "3.IH"(2) [OF _ a] "3.IH"(3) [OF _ a b] True show ?thesis by simp
  next
    case False
    with "3.prems" have "collectSubFields S runtimeType sels nodes = Inr fns" by simp
    from "3.IH"(1) [OF False this] show ?thesis by simp
  qed
next
  case (4 S runtimeType n sels nodes)
  then show ?case by simp
qed

text \<open>
  The plans of Planner.ts: a \<open>FieldPlan\<close> holds its subschema plans and, by response
  key, its stitch plans; a \<open>StitchPlan\<close> is a \<open>Map\<close> from object type to field plan;
  a \<open>MutableFieldPlan\<close> holds its subschema plans in a \<open>Map\<close> keyed by subschema
  (the key is \<open>None\<close> for \<open>undefined\<close>, which the first value of an empty set is).
\<close>

datatype fieldPlan =
  FieldPlan (subschemaPlans: "subschemaPlan list")
            (stitchPlans: "(string \<times> (gqlType \<times> fieldPlan) list) list")
and subschemaPlan =
  SubschemaPlan (toSubschema: "subschema option") (planFromSubschema: "subschema option")
                (planFieldNodes: "fieldNode list")
                (planStitchPlans: "(string \<times> (gqlType \<times> fieldPlan) list) list")

type_synonym stitchPlan = "(gqlType \<times> fieldPlan) list"

record mutableFieldPlan =
  mutableSubschemaPlans :: "(subschema option \<times> subschemaPlan) list"
  mutableStitchPlans :: "(string \<times> stitchPlan) list"

text \<open>
  \<open>Planner._getSubschemaAndPlan\<close>, \<open>_getSubschema\<close> and \<open>_getSubschemaPlan\<close>.
  \<open>firstPlanned\<close> is their common loop, the first subschema of the set that has an
  entry in \<open>subschemaPlans\<close>; \<open>firstCandidate\<close> is
  \<open>subschemas.values().next().value\<close>. The source returns the plan object and mutates
  it afterwards; the model returns the map with the plan in it, and \<open>modifyPlan\<close> is
  the later mutation of the plan under a key.
\<close>

definition emptyFieldPlan :: mutableFieldPlan where
  "emptyFieldPlan = \<lparr>mutableSubschemaPlans = [], mutableStitchPlans = []\<rparr>"

definition firstPlanned ::
  "subschema list \<Rightarrow> (subschema option \<times> subschemaPlan) list \<Rightarrow> subschema option" where
  "firstPlanned subschemas plans = find (\<lambda>s. map_of plans (Some s) \<noteq> None) subschemas"

definition firstCandidate :: "subschema list \<Rightarrow> subschema option" where
  "firstCandidate subschemas = (case subschemas of [] \<Rightarrow> None | s # rest \<Rightarrow> Some s)"

definition newSubschemaPlan :: "subschema option \<Rightarrow> subschema option \<Rightarrow> subschemaPlan" where
  "newSubschemaPlan subschema frm = SubschemaPlan subschema frm [] []"

definition getSubschemaAndPlan ::
  "subschema list \<Rightarrow> (subschema option \<times> subschemaPlan) list \<Rightarrow> subschema option \<Rightarrow>
   subschema option \<times> (subschema option \<times> subschemaPlan) list" where
  "getSubschemaAndPlan subschemas plans frm =
     (case firstPlanned subschemas plans of
        Some s \<Rightarrow> (Some s, plans)
      | None \<Rightarrow>
          (let subschema = firstCandidate subschemas
           in (subschema, AList.update subschema (newSubschemaPlan subschema frm) plans)))"

definition getSubschema ::
  "subschema list \<Rightarrow> (subschema option \<times> subschemaPlan) list \<Rightarrow> subschema option" where
  "getSubschema subschemas plans =
     (case firstPlanned subschemas plans of
        Some s \<Rightarrow> Some s
      | None \<Rightarrow> firstCandidate subschemas)"

definition getSubschemaPlan ::
  "subschema option \<Rightarrow> (subschema option \<times> subschemaPlan) list \<Rightarrow> subschema option \<Rightarrow>
   (subschema option \<times> subschemaPlan) list" where
  "getSubschemaPlan subschema plans frm =
     (case map_of plans subschema of
        Some p \<Rightarrow> plans
      | None \<Rightarrow> AList.update subschema (newSubschemaPlan subschema frm) plans)"

definition modifyPlan ::
  "subschema option \<Rightarrow> (subschemaPlan \<Rightarrow> subschemaPlan) \<Rightarrow>
   (subschema option \<times> subschemaPlan) list \<Rightarrow> (subschema option \<times> subschemaPlan) list" where
  "modifyPlan subschema f plans =
     (case map_of plans subschema of
        None \<Rightarrow> plans
      | Some p \<Rightarrow> AList.update subschema (f p) plans)"

definition appendFieldNode :: "fieldNode \<Rightarrow> subschemaPlan \<Rightarrow> subschemaPlan" where
  "appendFieldNode field p =
     SubschemaPlan (toSubschema p) (planFromSubschema p)
       (appendToArray (planFieldNodes p) field) (planStitchPlans p)"

definition setPlanStitchPlan :: "string \<Rightarrow> stitchPlan \<Rightarrow> subschemaPlan \<Rightarrow> subschemaPlan" where
  "setPlanStitchPlan responseKey sp p =
     SubschemaPlan (toSubschema p) (planFromSubschema p) (planFieldNodes p)
       (AList.update responseKey sp (planStitchPlans p))"

definition responseKeyOf :: "fieldNode \<Rightarrow> string" where
  "responseKeyOf field = (case fieldAlias field of Some a \<Rightarrow> a | None \<Rightarrow> fieldName field)"

text \<open>
  The two halves of \<open>Planner._addFieldToFieldPlan\<close> that follow the lookups: the leaf
  branch, and, for a field with a selection set, what is recorded once the selection split
  and the stitch plan are known.
\<close>

definition addLeafToFieldPlan ::
  "mutableFieldPlan \<Rightarrow> subschema list \<Rightarrow> subschema option \<Rightarrow> fieldNode \<Rightarrow> mutableFieldPlan" where
  "addLeafToFieldPlan fieldPlan subschemas frm field =
     (case getSubschemaAndPlan subschemas (mutableSubschemaPlans fieldPlan) frm of
        (subschema, plans) \<Rightarrow>
          fieldPlan\<lparr>mutableSubschemaPlans := modifyPlan subschema (appendFieldNode field) plans\<rparr>)"

definition recordSplit ::
  "mutableFieldPlan \<Rightarrow> subschema list \<Rightarrow> subschema option \<Rightarrow> subschema option \<Rightarrow> fieldNode \<Rightarrow>
   selectionSplit \<Rightarrow> stitchPlan \<Rightarrow> mutableFieldPlan" where
  "recordSplit fieldPlan subschemas subschema frm field split sp =
     (if length (ownSelections split) \<noteq> 0
      then (let plans = getSubschemaPlan subschema (mutableSubschemaPlans fieldPlan) frm;
                splitField = FieldNode (fieldAlias field) (fieldName field) (arguments field)
                               (Some (ownSelections split));
                plans1 = modifyPlan subschema (appendFieldNode splitField) plans
            in if length sp > 0
               then (if subschema = frm
                     then \<lparr>mutableSubschemaPlans = plans1,
                           mutableStitchPlans =
                             AList.update (responseKeyOf field) sp (mutableStitchPlans fieldPlan)\<rparr>
                     else \<lparr>mutableSubschemaPlans =
                             modifyPlan subschema (setPlanStitchPlan (responseKeyOf field) sp) plans1,
                           mutableStitchPlans = mutableStitchPlans fieldPlan\<rparr>)
               else \<lparr>mutableSubschemaPlans = plans1,
                     mutableStitchPlans = mutableStitchPlans fieldPlan\<rparr>)
      else if length sp > 0
      then (if subschema \<noteq> None \<and> subschema = frm
            then fieldPlan\<lparr>mutableStitchPlans :=
                   AList.update (responseKeyOf field) sp (mutableStitchPlans fieldPlan)\<rparr>
            else (case getSubschemaAndPlan subschemas (mutableSubschemaPlans fieldPlan) frm of
                    (chosen, plans) \<Rightarrow>
                      fieldPlan\<lparr>mutableSubschemaPlans :=
                        modifyPlan chosen (setPlanStitchPlan (responseKeyOf field) sp) plans\<rparr>))
      else fieldPlan)"

text \<open>
  The types \<open>_createStitchPlan\<close> iterates over, the snapshot
  \<open>{ subschemaPlans: [...values()], stitchPlans }\<close> a finished plan is returned as,
  and the test under which a type is entered in the stitch plan.
\<close>

definition runtimeTypes :: "superSchema \<Rightarrow> gqlType \<Rightarrow> gqlType list" where
  "runtimeTypes S parentType =
     (if isAbstractType parentType then getPossibleTypes S parentType else [parentType])"

definition snapshotFieldPlan :: "mutableFieldPlan \<Rightarrow> fieldPlan" where
  "snapshotFieldPlan fieldPlan =
     FieldPlan (map snd (mutableSubschemaPlans fieldPlan)) (mutableStitchPlans fieldPlan)"

definition keepNonEmpty :: "stitchPlan \<Rightarrow> gqlType \<Rightarrow> fieldPlan \<Rightarrow> stitchPlan" where
  "keepNonEmpty sp ty fieldPlan =
     (if length (subschemaPlans fieldPlan) > 0 \<or> length (stitchPlans fieldPlan) > 0
      then AList.update ty fieldPlan sp else sp)"

text \<open>
  \<open>Planner._addFieldToFieldPlan\<close>, \<open>_createStitchPlan\<close> (with
  \<open>stitchPlanForTypes\<close>, its loop over the possible types) and
  \<open>_createSupplementalFieldPlanImpl\<close> (with \<open>addFieldsToFieldPlan\<close>, its loop over
  the field nodes). They call each other through the selections a subschema cannot
  resolve, which are never larger than the selection set they come from.
\<close>

function addFieldToFieldPlan ::
    "superSchema \<Rightarrow> mutableFieldPlan \<Rightarrow> subschema option \<Rightarrow> gqlType \<Rightarrow> fieldNode \<Rightarrow>
     plannerError + mutableFieldPlan"
  and createStitchPlan ::
    "superSchema \<Rightarrow> gqlType \<Rightarrow> selection list \<Rightarrow> subschema option \<Rightarrow> plannerError + stitchPlan"
  and stitchPlanForTypes ::
    "superSchema \<Rightarrow> stitchPlan \<Rightarrow> gqlType list \<Rightarrow> selection list \<Rightarrow> subschema option \<Rightarrow>
     plannerError + stitchPlan"
  and createSupplementalFieldPlan ::
    "superSchema \<Rightarrow> gqlType \<Rightarrow> fieldNode list \<Rightarrow> subschema option \<Rightarrow> plannerError + fieldPlan"
  and addFieldsToFieldPlan ::
    "superSchema \<Rightarrow> mutableFieldPlan \<Rightarrow> subschema option \<Rightarrow> gqlType \<Rightarrow> fieldNode list \<Rightarrow>
     plannerError + mutableFieldPlan"
where
  "addFieldToFieldPlan S fieldPlan frm parentType (FieldNode al nm args None) =
     bindE (subschemaSetFor S parentType nm)
       (\<lambda>found. case found of
            None \<Rightarrow> Inr fieldPlan
          | Some subschemas \<Rightarrow>
              Inr (addLeafToFieldPlan fieldPlan subschemas frm (FieldNode al nm args None)))"
| "addFieldToFieldPlan S fieldPlan frm parentType (FieldNode al nm args (Some subsels)) =
     bindE (subschemaSetFor S parentType nm)
       (\<lambda>found. case found of
            None \<Rightarrow> Inr fieldPlan
          | Some subschemas \<Rightarrow>
              (case getFieldDef S parentType nm of
                 None \<Rightarrow> Inr fieldPlan
               | Some namedFieldType \<Rightarrow>
                   bindE (createSelectionSplit S namedFieldType subsels
                            (getSubschema subschemas (mutableSubschemaPlans fieldPlan)) frm)
                     (\<lambda>split.
                        bindE (createStitchPlan S namedFieldType (otherSelections split)
                                 (getSubschema subschemas (mutableSubschemaPlans fieldPlan)))
                          (\<lambda>sp. Inr (recordSplit fieldPlan subschemas
                                   (getSubschema subschemas (mutableSubschemaPlans fieldPlan)) frm
                                   (FieldNode al nm args (Some subsels)) split sp)))))"
| "createStitchPlan S parentType other subschema =
     stitchPlanForTypes S [] (runtimeTypes S parentType) other subschema"
| "stitchPlanForTypes S sp [] other subschema = Inr sp"
| "stitchPlanForTypes S sp (ty # tys) other subschema =
     bindE (collectSubFields S ty other [])
       (\<lambda>nodes.
          bindE (createSupplementalFieldPlan S ty nodes subschema)
            (\<lambda>fieldPlan. stitchPlanForTypes S (keepNonEmpty sp ty fieldPlan) tys other subschema))"
| "createSupplementalFieldPlan S parentType nodes frm =
     bindE (addFieldsToFieldPlan S emptyFieldPlan frm parentType nodes)
       (\<lambda>fieldPlan. Inr (snapshotFieldPlan fieldPlan))"
| "addFieldsToFieldPlan S fieldPlan frm parentType [] = Inr fieldPlan"
| "addFieldsToFieldPlan S fieldPlan frm parentType (f # fs) =
     bindE (addFieldToFieldPlan S fieldPlan frm parentType f)
       (\<lambda>fieldPlan'. addFieldsToFieldPlan S fieldPlan' frm parentType fs)"
  by pat_completeness auto

termination
  apply (relation "inv_image (less_than <*lex*> less_than)
     (\<lambda>x. case x of
        Inl (Inl (S, fp, frm, pt, f)) \<Rightarrow> (4 * fieldNodeSize f, 0)
      | Inl (Inr (S, pt, other, sub)) \<Rightarrow> (4 * sum_list (map selectionSize other) + 3, 0)
      | Inr (Inl (S, sp, tys, other, sub)) \<Rightarrow>
          (4 * sum_list (map selectionSize other) + 2, length tys)
      | Inr (Inr (Inl (S, pt, fns, frm))) \<Rightarrow> (4 * sum_list (map fieldNodeSize fns) + 1, 0)
      | Inr (Inr (Inr (S, fp, frm, pt, fns))) \<Rightarrow>
          (4 * sum_list (map fieldNodeSize fns), length fns + 1))")
  subgoal by (intro wf_inv_image wf_lex_prod wf_less_than)
  subgoal for S fieldPlan frm parentType al nm args subsels found subschemas namedFieldType split
    using split_other_size(1)
      [of S namedFieldType subsels "getSubschema subschemas (mutableSubschemaPlans fieldPlan)"
        frm split]
    by (simp add: otherSize_def)
  subgoal by simp
  subgoal for S sp ty tys other subschema nodes
    using collectSubFields_size [of S ty other "[]" nodes] by simp
  subgoal by simp
  subgoal by simp
  subgoal for S fieldPlan frm parentType f fs
    by (cases fs) (simp_all add: add_pos_nonneg)
  subgoal by simp
  done

text \<open>\<open>Planner._createFieldPlanImpl\<close>: the same loop, with no originating subschema.\<close>

definition createFieldPlan ::
  "superSchema \<Rightarrow> gqlType \<Rightarrow> fieldNode list \<Rightarrow> plannerError + fieldPlan" where
  "createFieldPlan S parentType nodes =
     bindE (addFieldsToFieldPlan S emptyFieldPlan None parentType nodes)
       (\<lambda>fieldPlan. Inr (snapshotFieldPlan fieldPlan))"

text \<open>
  The rule of the specification for the subschema that receives a leaf: prefer
  \<open>fromSubschema\<close> if it is among the candidates, else a candidate that already has
  an entry in the plan, else the first candidate.
\<close>

definition specPreferredSubschema ::
  "subschema option \<Rightarrow> subschema list \<Rightarrow> (subschema option \<times> subschemaPlan) list \<Rightarrow>
   subschema option" where
  "specPreferredSubschema frm subschemas plans =
     (if hasSubschema subschemas frm then frm
      else case firstPlanned subschemas plans of
             Some s \<Rightarrow> Some s
           | None \<Rightarrow> firstCandidate subschemas)"

lemma map_of_modifyPlan:
  "map_of (modifyPlan k f plans) k' =
     (if k' = k then map_option f (map_of plans k) else map_of plans k')"
  by (auto simp: modifyPlan_def update_conv' split: option.splits)

lemma getSubschemaAndPlan_fst:
  "fst (getSubschemaAndPlan subschemas plans frm) = getSubschema subschemas plans"
  by (simp add: getSubschemaAndPlan_def getSubschema_def Let_def split: option.splits)

lemma firstPlanned_Some:
  "firstPlanned subschemas plans = Some s \<Longrightarrow> s \<in> set subschemas \<and> map_of plans (Some s) \<noteq> None"
  unfolding firstPlanned_def by (metis (mono_tags, lifting) find_Some_iff nth_mem)

lemma firstPlanned_None:
  "firstPlanned subschemas plans = None \<Longrightarrow> s \<in> set subschemas \<Longrightarrow> map_of plans (Some s) = None"
  unfolding firstPlanned_def by (auto simp: find_None_iff)

lemma map_of_getSubschemaAndPlan:
  assumes "subschemas \<noteq> []"
  shows "map_of (snd (getSubschemaAndPlan subschemas plans frm)) k =
     (if k = getSubschema subschemas plans \<and> map_of plans k = None
      then Some (newSubschemaPlan k frm) else map_of plans k)"
proof (cases "firstPlanned subschemas plans")
  case None
  from assms obtain s rest where l: "subschemas = s # rest" by (cases subschemas) auto
  from firstPlanned_None [OF None, of s] l have "map_of plans (Some s) = None" by simp
  then show ?thesis
    using None l
    by (simp add: getSubschemaAndPlan_def getSubschema_def firstCandidate_def Let_def update_conv')
next
  case (Some s)
  then show ?thesis
    using firstPlanned_Some [OF Some]
    by (auto simp: getSubschemaAndPlan_def getSubschema_def)
qed

text \<open>
  Claim C3, as the code has it. For a leaf field whose candidate set under the parent type
  is non-empty, \<open>_addFieldToFieldPlan\<close> appends the field to the subschema plan of the
  first candidate (in the order of the set) that already has a \<open>SubschemaPlan\<close> entry,
  else of the first candidate, for which a plan is created. \<open>fromSubschema\<close> has no part
  in the choice (it is only stored in a plan that is created). No other plan and no stitch
  plan changes.
\<close>

theorem addFieldToFieldPlan_leaf_choice:
  assumes "subschemaSetFor S parentType nm = Inr (Some subschemas)" and "subschemas \<noteq> []"
  shows "\<exists>fieldPlan'.
           addFieldToFieldPlan S fieldPlan frm parentType (FieldNode al nm args None) = Inr fieldPlan'
         \<and> getSubschema subschemas (mutableSubschemaPlans fieldPlan)
             = (case find (\<lambda>s. map_of (mutableSubschemaPlans fieldPlan) (Some s) \<noteq> None) subschemas of
                  Some s \<Rightarrow> Some s
                | None \<Rightarrow> Some (hd subschemas))
         \<and> map_of (mutableSubschemaPlans fieldPlan')
               (getSubschema subschemas (mutableSubschemaPlans fieldPlan))
             = Some (appendFieldNode (FieldNode al nm args None)
                 (case map_of (mutableSubschemaPlans fieldPlan)
                         (getSubschema subschemas (mutableSubschemaPlans fieldPlan)) of
                    Some p \<Rightarrow> p
                  | None \<Rightarrow> newSubschemaPlan
                      (getSubschema subschemas (mutableSubschemaPlans fieldPlan)) frm))
         \<and> (\<forall>k. k \<noteq> getSubschema subschemas (mutableSubschemaPlans fieldPlan) \<longrightarrow>
                map_of (mutableSubschemaPlans fieldPlan') k
                  = map_of (mutableSubschemaPlans fieldPlan) k)
         \<and> mutableStitchPlans fieldPlan' = mutableStitchPlans fieldPlan"
proof -
  let ?plans = "mutableSubschemaPlans fieldPlan"
  let ?r = "getSubschemaAndPlan subschemas ?plans frm"
  let ?fp = "fieldPlan\<lparr>mutableSubschemaPlans :=
                modifyPlan (fst ?r) (appendFieldNode (FieldNode al nm args None)) (snd ?r)\<rparr>"
  have run: "addFieldToFieldPlan S fieldPlan frm parentType (FieldNode al nm args None) = Inr ?fp"
    using assms(1) by (simp add: addLeafToFieldPlan_def split: prod.splits)
  have choice: "getSubschema subschemas ?plans
             = (case find (\<lambda>s. map_of ?plans (Some s) \<noteq> None) subschemas of
                  Some s \<Rightarrow> Some s
                | None \<Rightarrow> Some (hd subschemas))"
    using assms(2)
    by (cases subschemas) (simp_all add: getSubschema_def firstPlanned_def firstCandidate_def
        split: option.splits)
  show ?thesis
    apply (rule exI [of _ ?fp])
    apply (intro conjI run choice)
      apply (simp_all add: map_of_modifyPlan getSubschemaAndPlan_fst
        map_of_getSubschemaAndPlan [OF assms(2)] split: option.splits)
    done
qed

theorem addFieldToFieldPlan_leaf_choice_witness:
  "addFieldToFieldPlan
      \<lparr>subschemaSetsByTypeAndField =
         map_of [(''User'', map_of [(''id'', [Subschema 1, Subschema 2])])],
       mergedTypes = map_of [(''User'', GqlType ''User'' ObjectKind)],
       getFieldDef = (\<lambda>t n. None), getPossibleTypes = (\<lambda>t. []), isSubType = (\<lambda>a b. False)\<rparr>
      \<lparr>mutableSubschemaPlans =
         [(Some (Subschema 2), SubschemaPlan (Some (Subschema 2)) None
             [FieldNode None ''email'' [] None] [])],
       mutableStitchPlans = []\<rparr>
      None (GqlType ''User'' ObjectKind) (FieldNode None ''id'' [] None)
   = Inr \<lparr>mutableSubschemaPlans =
            [(Some (Subschema 2), SubschemaPlan (Some (Subschema 2)) None
                [FieldNode None ''email'' [] None, FieldNode None ''id'' [] None] [])],
          mutableStitchPlans = []\<rparr>"
  using addFieldToFieldPlan_leaf_choice [where S =
      "\<lparr>subschemaSetsByTypeAndField =
         map_of [(''User'', map_of [(''id'', [Subschema 1, Subschema 2])])],
       mergedTypes = map_of [(''User'', GqlType ''User'' ObjectKind)],
       getFieldDef = (\<lambda>t n. None), getPossibleTypes = (\<lambda>t. []), isSubType = (\<lambda>a b. False)\<rparr>"
      and parentType = "GqlType ''User'' ObjectKind" and nm = "''id''"
      and subschemas = "[Subschema 1, Subschema 2]" and frm = None and al = None and args = "[]"
      and fieldPlan = "\<lparr>mutableSubschemaPlans =
         [(Some (Subschema 2), SubschemaPlan (Some (Subschema 2)) None
             [FieldNode None ''email'' [] None] [])],
       mutableStitchPlans = []\<rparr>"]
  by (simp add: subschemaSetFor_def addLeafToFieldPlan_def getSubschemaAndPlan_def
      firstPlanned_def firstCandidate_def newSubschemaPlan_def modifyPlan_def appendFieldNode_def
      appendToArray_def Let_def)

text \<open>
  Claim C3 as stated fails: with candidates \<open>{1, 2}\<close>, an empty plan and
  \<open>fromSubschema = 2\<close>, the leaf goes to subschema 1, where the rule of the
  specification prefers 2.
\<close>

theorem addFieldToFieldPlan_fromSubschema_counterexample:
  "addFieldToFieldPlan
      \<lparr>subschemaSetsByTypeAndField =
         map_of [(''User'', map_of [(''id'', [Subschema 1, Subschema 2])])],
       mergedTypes = map_of [(''User'', GqlType ''User'' ObjectKind)],
       getFieldDef = (\<lambda>t n. None), getPossibleTypes = (\<lambda>t. []), isSubType = (\<lambda>a b. False)\<rparr>
      emptyFieldPlan (Some (Subschema 2)) (GqlType ''User'' ObjectKind)
      (FieldNode None ''id'' [] None)
   = Inr \<lparr>mutableSubschemaPlans =
            [(Some (Subschema 1),
              SubschemaPlan (Some (Subschema 1)) (Some (Subschema 2))
                [FieldNode None ''id'' [] None] [])],
          mutableStitchPlans = []\<rparr>
   \<and> specPreferredSubschema (Some (Subschema 2)) [Subschema 1, Subschema 2] []
     = Some (Subschema 2)"
  by (simp add: subschemaSetFor_def addLeafToFieldPlan_def getSubschemaAndPlan_def
      firstPlanned_def firstCandidate_def newSubschemaPlan_def modifyPlan_def appendFieldNode_def
      appendToArray_def emptyFieldPlan_def specPreferredSubschema_def hasSubschema_def Let_def)

text \<open>
  \<open>suppliesPlan\<close>: the field plan is the supplemental plan of the type, that is what
  \<open>_createSupplementalFieldPlan\<close> returns on the fields \<open>_collectSubFields\<close>
  collects for the type. \<open>nonEmptyPlan\<close>: a plan with a subschema plan or a stitch plan.
\<close>

definition suppliesPlan ::
  "superSchema \<Rightarrow> selection list \<Rightarrow> subschema option \<Rightarrow> gqlType \<Rightarrow> fieldPlan \<Rightarrow> bool" where
  "suppliesPlan S other subschema ty fieldPlan =
     (case collectSubFields S ty other [] of
        Inl e \<Rightarrow> False
      | Inr nodes \<Rightarrow> createSupplementalFieldPlan S ty nodes subschema = Inr fieldPlan)"

definition nonEmptyPlan :: "fieldPlan \<Rightarrow> bool" where
  "nonEmptyPlan fieldPlan = (subschemaPlans fieldPlan \<noteq> [] \<or> stitchPlans fieldPlan \<noteq> [])"

lemma suppliesPlan_functional:
  "suppliesPlan S other sub ty fp \<Longrightarrow> suppliesPlan S other sub ty fp' \<Longrightarrow> fp = fp'"
  by (auto simp: suppliesPlan_def split: sum.splits)

lemma map_of_keepNonEmpty:
  "map_of (keepNonEmpty sp ty fp) k =
     (if k = ty \<and> nonEmptyPlan fp then Some fp else map_of sp k)"
  by (auto simp: keepNonEmpty_def nonEmptyPlan_def update_conv')

lemma distinct_keepNonEmpty:
  "distinct (map fst sp) \<Longrightarrow> distinct (map fst (keepNonEmpty sp ty fp))"
  by (simp add: keepNonEmpty_def distinct_update)

lemma stitchPlanForTypes_spec:
  "stitchPlanForTypes S sp0 tys other sub = Inr sp \<Longrightarrow>
     (\<forall>ty \<in> set tys. \<exists>fp. suppliesPlan S other sub ty fp)
   \<and> (\<forall>ty fp. ty \<in> set tys \<longrightarrow> suppliesPlan S other sub ty fp \<longrightarrow>
          map_of sp ty = (if nonEmptyPlan fp then Some fp else map_of sp0 ty))
   \<and> (\<forall>ty. ty \<notin> set tys \<longrightarrow> map_of sp ty = map_of sp0 ty)
   \<and> (distinct (map fst sp0) \<longrightarrow> distinct (map fst sp))"
proof (induction tys arbitrary: sp0)
  case Nil
  then show ?case by simp
next
  case (Cons t ts)
  from Cons.prems obtain nodes fpt where
    c: "collectSubFields S t other [] = Inr nodes"
    and s: "createSupplementalFieldPlan S t nodes sub = Inr fpt"
    and r: "stitchPlanForTypes S (keepNonEmpty sp0 t fpt) ts other sub = Inr sp"
    by (auto simp: bindE_Inr_iff)
  have st: "suppliesPlan S other sub t fpt"
    using c s by (simp add: suppliesPlan_def)
  note ih = Cons.IH [OF r]
  have 1: "\<forall>ty \<in> set (t # ts). \<exists>fp. suppliesPlan S other sub ty fp"
    using ih st by auto
  have 2: "map_of sp ty = (if nonEmptyPlan fp then Some fp else map_of sp0 ty)"
    if "ty \<in> set (t # ts)" and "suppliesPlan S other sub ty fp" for ty fp
  proof (cases "ty \<in> set ts")
    case True
    with ih that(2) have "map_of sp ty =
        (if nonEmptyPlan fp then Some fp else map_of (keepNonEmpty sp0 t fpt) ty)" by blast
    moreover have "ty = t \<Longrightarrow> fp = fpt"
      using suppliesPlan_functional [OF st] that(2) by auto
    ultimately show ?thesis by (auto simp: map_of_keepNonEmpty)
  next
    case False
    with that(1) have ty: "ty = t" by simp
    with that(2) st have fp: "fp = fpt" using suppliesPlan_functional by blast
    from ih False have "map_of sp ty = map_of (keepNonEmpty sp0 t fpt) ty" by blast
    then show ?thesis by (simp add: map_of_keepNonEmpty ty fp)
  qed
  have 3: "\<forall>ty. ty \<notin> set (t # ts) \<longrightarrow> map_of sp ty = map_of sp0 ty"
    using ih by (auto simp: map_of_keepNonEmpty)
  have 4: "distinct (map fst sp0) \<longrightarrow> distinct (map fst sp)"
    using ih distinct_keepNonEmpty by blast
  from 1 2 3 4 show ?case by blast
qed

lemma map_of_getSubschemaPlan:
  "map_of (getSubschemaPlan k plans frm) k' =
     (if k' = k \<and> map_of plans k = None then Some (newSubschemaPlan k frm) else map_of plans k')"
  by (auto simp: getSubschemaPlan_def update_conv' split: option.splits)

lemma recordSplit_empty_stitchPlan:
  "mutableStitchPlans (recordSplit fieldPlan subschemas subschema frm field split [])
     = mutableStitchPlans fieldPlan
   \<and> (\<forall>k p'. map_of (mutableSubschemaPlans
                   (recordSplit fieldPlan subschemas subschema frm field split [])) k = Some p'
          \<longrightarrow> planStitchPlans p'
                = (case map_of (mutableSubschemaPlans fieldPlan) k of
                     Some p \<Rightarrow> planStitchPlans p
                   | None \<Rightarrow> []))"
  by (auto simp: recordSplit_def Let_def map_of_modifyPlan map_of_getSubschemaPlan
      appendFieldNode_def newSubschemaPlan_def split: if_splits option.splits)

text \<open>
  Claim C6. \<open>_createStitchPlan\<close> iterates over the possible runtime types of the parent
  type (the type itself when it is concrete, \<open>getPossibleTypes\<close> of it when it is
  abstract): every such type has a supplemental plan and is mapped to it exactly when the
  plan is non-empty, and the stitch plan has no other entry. So an abstract type with no
  possible type, or none with a non-empty plan, gives the empty stitch plan, and for an
  empty stitch plan \<open>_addFieldToFieldPlan\<close> records nothing: the stitch plans of the
  field plan and of every subschema plan stay as they were, so no follow-up fetch exists.
\<close>

theorem createStitchPlan_runtime_types:
  assumes "createStitchPlan S parentType other subschema = Inr sp"
  shows "(\<forall>ty \<in> set (if isAbstractType parentType then getPossibleTypes S parentType
                       else [parentType]).
            \<exists>fp. suppliesPlan S other subschema ty fp
               \<and> map_of sp ty = (if nonEmptyPlan fp then Some fp else None))
       \<and> (\<forall>ty fp. (ty, fp) \<in> set sp \<longrightarrow>
            ty \<in> set (if isAbstractType parentType then getPossibleTypes S parentType
                       else [parentType])
            \<and> suppliesPlan S other subschema ty fp \<and> nonEmptyPlan fp)
       \<and> (isAbstractType parentType \<and> getPossibleTypes S parentType = [] \<longrightarrow> sp = [])
       \<and> ((\<forall>ty fp. suppliesPlan S other subschema ty fp \<longrightarrow> \<not> nonEmptyPlan fp) \<longrightarrow> sp = [])
       \<and> (sp = [] \<longrightarrow>
            mutableStitchPlans (recordSplit fieldPlan subschemas subschema frm field split sp)
              = mutableStitchPlans fieldPlan
          \<and> (\<forall>k p'. map_of (mutableSubschemaPlans
                          (recordSplit fieldPlan subschemas subschema frm field split sp)) k = Some p'
                 \<longrightarrow> planStitchPlans p'
                       = (case map_of (mutableSubschemaPlans fieldPlan) k of
                            Some p \<Rightarrow> planStitchPlans p
                          | None \<Rightarrow> [])))"
proof -
  let ?tys = "if isAbstractType parentType then getPossibleTypes S parentType else [parentType]"
  from assms have run: "stitchPlanForTypes S [] ?tys other subschema = Inr sp"
    by (simp add: runtimeTypes_def)
  note spec = stitchPlanForTypes_spec [OF run]
  have d: "distinct (map fst sp)" using spec by simp
  have a: "\<forall>ty \<in> set ?tys. \<exists>fp. suppliesPlan S other subschema ty fp
               \<and> map_of sp ty = (if nonEmptyPlan fp then Some fp else None)"
  proof
    fix ty assume ty: "ty \<in> set ?tys"
    with spec obtain fp where fp: "suppliesPlan S other subschema ty fp" by blast
    with spec ty have "map_of sp ty = (if nonEmptyPlan fp then Some fp else None)"
      by (metis map_of.simps(1))
    with fp show "\<exists>fp. suppliesPlan S other subschema ty fp
               \<and> map_of sp ty = (if nonEmptyPlan fp then Some fp else None)" by blast
  qed
  have b: "ty \<in> set ?tys \<and> suppliesPlan S other subschema ty fp \<and> nonEmptyPlan fp"
    if "(ty, fp) \<in> set sp" for ty fp
  proof -
    from that d have m: "map_of sp ty = Some fp" by simp
    have inT: "ty \<in> set ?tys"
    proof (rule ccontr)
      assume "ty \<notin> set ?tys"
      with spec have "map_of sp ty = map_of [] ty" by blast
      with m show False by simp
    qed
    with a obtain fp' where fp': "suppliesPlan S other subschema ty fp'"
      and m': "map_of sp ty = (if nonEmptyPlan fp' then Some fp' else None)" by blast
    from m m' have ne: "nonEmptyPlan fp'" and eq: "fp' = fp" by (auto split: if_splits)
    from fp' inT ne show ?thesis unfolding eq by blast
  qed
  have c: "sp = []" if "isAbstractType parentType \<and> getPossibleTypes S parentType = []"
    using run that by simp
  have e: "sp = []" if "\<forall>ty fp. suppliesPlan S other subschema ty fp \<longrightarrow> \<not> nonEmptyPlan fp"
  proof (rule ccontr)
    assume "sp \<noteq> []"
    then obtain ty fp where "(ty, fp) \<in> set sp" by (cases sp) auto
    from b [OF this] that show False by blast
  qed
  have f: "mutableStitchPlans (recordSplit fieldPlan subschemas subschema frm field split [])
              = mutableStitchPlans fieldPlan
          \<and> (\<forall>k p'. map_of (mutableSubschemaPlans
                          (recordSplit fieldPlan subschemas subschema frm field split [])) k = Some p'
                 \<longrightarrow> planStitchPlans p'
                       = (case map_of (mutableSubschemaPlans fieldPlan) k of
                            Some p \<Rightarrow> planStitchPlans p
                          | None \<Rightarrow> []))"
    by (rule recordSplit_empty_stitchPlan)
  from a b c e f show ?thesis by blast
qed


theorem createStitchPlan_runtime_types_witness:
  "createStitchPlan
      \<lparr>subschemaSetsByTypeAndField =
         map_of [(''User'', map_of [(''name'', [Subschema 1]), (''email'', [Subschema 2])])],
       mergedTypes = map_of [(''User'', GqlType ''User'' ObjectKind),
                             (''Node'', GqlType ''Node'' InterfaceKind),
                             (''Empty'', GqlType ''Empty'' UnionKind)],
       getFieldDef = (\<lambda>t n. None),
       getPossibleTypes = (\<lambda>t. if typeName t = ''Node'' then [GqlType ''User'' ObjectKind] else []),
       isSubType = (\<lambda>a b. typeName a = ''Node'' \<and> typeName b = ''User'')\<rparr>
      (GqlType ''Node'' InterfaceKind)
      [InlineFragment (Some ''User'') [FieldSelection (FieldNode None ''email'' [] None)]]
      (Some (Subschema 1))
   = Inr [(GqlType ''User'' ObjectKind,
           FieldPlan [SubschemaPlan (Some (Subschema 2)) (Some (Subschema 1))
                        [FieldNode None ''email'' [] None] []] [])]
   \<and> createStitchPlan
      \<lparr>subschemaSetsByTypeAndField =
         map_of [(''User'', map_of [(''name'', [Subschema 1]), (''email'', [Subschema 2])])],
       mergedTypes = map_of [(''User'', GqlType ''User'' ObjectKind),
                             (''Node'', GqlType ''Node'' InterfaceKind),
                             (''Empty'', GqlType ''Empty'' UnionKind)],
       getFieldDef = (\<lambda>t n. None),
       getPossibleTypes = (\<lambda>t. if typeName t = ''Node'' then [GqlType ''User'' ObjectKind] else []),
       isSubType = (\<lambda>a b. typeName a = ''Node'' \<and> typeName b = ''User'')\<rparr>
      (GqlType ''Empty'' UnionKind)
      [InlineFragment (Some ''User'') [FieldSelection (FieldNode None ''email'' [] None)]]
      (Some (Subschema 1))
   = Inr []"
  using createStitchPlan_runtime_types [where S =
      "\<lparr>subschemaSetsByTypeAndField =
         map_of [(''User'', map_of [(''name'', [Subschema 1]), (''email'', [Subschema 2])])],
       mergedTypes = map_of [(''User'', GqlType ''User'' ObjectKind),
                             (''Node'', GqlType ''Node'' InterfaceKind),
                             (''Empty'', GqlType ''Empty'' UnionKind)],
       getFieldDef = (\<lambda>t n. None),
       getPossibleTypes = (\<lambda>t. if typeName t = ''Node'' then [GqlType ''User'' ObjectKind] else []),
       isSubType = (\<lambda>a b. typeName a = ''Node'' \<and> typeName b = ''User'')\<rparr>"
      and parentType = "GqlType ''Empty'' UnionKind"
      and other = "[InlineFragment (Some ''User'') [FieldSelection (FieldNode None ''email'' [] None)]]"
      and subschema = "Some (Subschema 1)" and sp = "[]"]
  by (simp add: runtimeTypes_def isAbstractType_def doesFragmentConditionMatch_def
      subschemaSetFor_def addLeafToFieldPlan_def getSubschemaAndPlan_def
      firstPlanned_def firstCandidate_def newSubschemaPlan_def modifyPlan_def appendFieldNode_def
      appendToArray_def Let_def emptyFieldPlan_def snapshotFieldPlan_def keepNonEmpty_def)

text \<open>
  A plan with a follow-up below a composite field that two subschemas serve. Subschema 1
  has \<open>Query.user\<close>, \<open>User.profile\<close> and \<open>Profile.avatar\<close>, subschema 2 has
  \<open>User.profile\<close> and \<open>Profile.bio\<close>, and \<open>User.profile\<close> lists subschema 2
  first. For \<open>{ user { profile { avatar bio } } }\<close> subschema 1 is asked for
  \<open>user { profile { avatar } }\<close>, and \<open>profile { bio }\<close> is a follow-up to
  subschema 2 at \<open>user\<close>: both results carry a \<open>profile\<close> object for the same
  \<open>user\<close>.
\<close>

lemma createFieldPlan_shared_composite:
  "createFieldPlan
      \<lparr>subschemaSetsByTypeAndField =
         map_of [(''Query'', map_of [(''user'', [Subschema 1])]),
                 (''User'', map_of [(''profile'', [Subschema 2, Subschema 1])]),
                 (''Profile'', map_of [(''avatar'', [Subschema 1]), (''bio'', [Subschema 2])])],
       mergedTypes = map_of [(''Query'', GqlType ''Query'' ObjectKind),
                             (''User'', GqlType ''User'' ObjectKind),
                             (''Profile'', GqlType ''Profile'' ObjectKind)],
       getFieldDef = (\<lambda>t n. if n = ''user'' then Some (GqlType ''User'' ObjectKind)
                              else if n = ''profile'' then Some (GqlType ''Profile'' ObjectKind)
                              else None),
       getPossibleTypes = (\<lambda>t. []),
       isSubType = (\<lambda>a b. False)\<rparr>
      (GqlType ''Query'' ObjectKind)
      [FieldNode None ''user'' [] (Some [FieldSelection (FieldNode None ''profile'' [] (Some
         [FieldSelection (FieldNode None ''avatar'' [] None),
          FieldSelection (FieldNode None ''bio'' [] None)]))])]
   = Inr (FieldPlan
       [SubschemaPlan (Some (Subschema 1)) None
         [FieldNode None ''user'' []
           (Some
             [FieldSelection
               (FieldNode None ''profile'' []
                 (Some
                   [FieldSelection (FieldNode None ''avatar'' [] None),
                    FieldSelection
                     (FieldNode (Some ''__stitching__typename'')
                       ''__typename'' [] None)])),
              FieldSelection
               (FieldNode (Some ''__stitching__typename'') ''__typename'' []
                 None)])]
         [(''user'',
           [(GqlType ''User'' ObjectKind,
             FieldPlan
              [SubschemaPlan (Some (Subschema 2)) (Some (Subschema 1))
                [FieldNode None ''profile'' []
                  (Some [FieldSelection (FieldNode None ''bio'' [] None)])]
                []]
              [])])]]
       [])"
  by code_simp

section \<open>Stream consolidator\<close>

text \<open>
  The \<open>Consolidator\<close> (a \<open>Repeater\<close>). Its code runs between awaits, and the model
  has one event per piece that runs: the consumer's first pull starts the executor
  (\<open>Start\<close>), \<open>add\<close> and \<open>close\<close> are called from outside, the promise of an
  iterator's \<open>next()\<close> settles and \<open>_addAsyncIterator\<close> goes on (\<open>Next k\<close>, for
  the \<open>k\<close>-th iterator of the batch), the awaited \<open>_signal\<close> resolves (\<open>Resume\<close>),
  the consumer gives up and \<open>stop\<close> resolves (\<open>Cancel\<close>). An event that finds nothing
  to do leaves the state as it is.

  An asynchronous iterator is the finite list of the values it still has to yield.
  \<open>_asyncIterators\<close>, in insertion order, is \<open>running @ waiting\<close>: the iterators of the
  batch under way (those \<open>Promise.all\<close> is awaited for), then the iterators added since.
  \<open>triggered\<close> says that the current \<open>_signal\<close> has been resolved; \<open>phase\<close> is where
  the executor's loop stands; \<open>pushed\<close> lists what was pushed to the consumer, who is
  taken to keep pulling.
\<close>

datatype loopPhase = NotStarted | InBatch | AwaitingSignal | Returned

record ('a, 'b) consolidator =
  running :: "'a list list"
  waiting :: "'a list list"
  started :: bool
  stopped :: bool
  closed :: bool
  triggered :: bool
  phase :: loopPhase
  pushed :: "'b list"

definition asyncIterators :: "('a, 'b) consolidator \<Rightarrow> 'a list list" where
  "asyncIterators s = running s @ waiting s"

definition newConsolidator :: "'a list list \<Rightarrow> ('a, 'b) consolidator" where
  "newConsolidator asyncIterables =
     \<lparr>running = [], waiting = asyncIterables, started = False, stopped = False,
      closed = False, triggered = False, phase = NotStarted, pushed = []\<rparr>"

datatype 'a consolidatorEvent = Start | Add "'a list" | Close | Next nat | Resume | Cancel

text \<open>
  The body of the executor's \<open>while (true)\<close>, from its top to the next await: start a
  batch on all iterators held, or \<open>stop()\<close> and return when closed, or await the signal.
\<close>

definition continueLoop :: "('a, 'b) consolidator \<Rightarrow> ('a, 'b) consolidator" where
  "continueLoop s =
     (if asyncIterators s \<noteq> []
      then s\<lparr>running := asyncIterators s, waiting := [], phase := InBatch\<rparr>
      else if closed s then s\<lparr>stopped := True, phase := Returned\<rparr>
      else s\<lparr>phase := AwaitingSignal\<rparr>)"

text \<open>
  The \<open>finally\<close> block of \<open>_addAsyncIterator\<close>: the iterator leaves the set, \<open>_stop\<close>
  is called when the consolidator is closed and holds no iterator; when it was the last of
  its batch, \<open>Promise.all\<close> resolves and the loop goes on.
\<close>

definition finishIterator :: "('a, 'b) consolidator \<Rightarrow> nat \<Rightarrow> ('a, 'b) consolidator" where
  "finishIterator s k =
     (let s1 = s\<lparr>running := take k (running s) @ drop (Suc k) (running s)\<rparr>;
          s2 = (if closed s1 \<and> asyncIterators s1 = [] then s1\<lparr>stopped := True\<rparr> else s1)
      in if running s2 = [] then continueLoop s2 else s2)"

text \<open>\<open>Consolidator.close()\<close> and \<open>Consolidator.add(value)\<close>.\<close>

definition close :: "('a, 'b) consolidator \<Rightarrow> ('a, 'b) consolidator" where
  "close s = (let s1 = s\<lparr>closed := True\<rparr> in if started s1 then s1\<lparr>triggered := True\<rparr> else s1)"

definition add :: "'a list \<Rightarrow> ('a, 'b) consolidator \<Rightarrow> ('a, 'b) consolidator" where
  "add v s =
     (if closed s then s
      else (let s1 = s\<lparr>waiting := waiting s @ [v]\<rparr>
            in if started s1 then s1\<lparr>triggered := True\<rparr> else s1))"

text \<open>
  One turn of the loop of \<open>_addAsyncIterator\<close> for the \<open>k\<close>-th iterator of the batch:
  it ends when the consolidator is stopped or the iterator is done, and pushes the
  processed value otherwise (a processor result \<open>undefined\<close>, here \<open>None\<close>, is dropped).
\<close>

definition addAsyncIteratorStep ::
  "('a \<Rightarrow> 'b option) \<Rightarrow> ('a, 'b) consolidator \<Rightarrow> nat \<Rightarrow> ('a, 'b) consolidator" where
  "addAsyncIteratorStep processor s k =
     (if phase s \<noteq> InBatch \<or> k \<ge> length (running s) then s
      else if stopped s then finishIterator s k
      else (case running s ! k of
              [] \<Rightarrow> finishIterator s k
            | x # rest \<Rightarrow>
                s\<lparr>running := (running s)[k := rest],
                  pushed := pushed s @ (case processor x of None \<Rightarrow> [] | Some y \<Rightarrow> [y])\<rparr>))"

fun step ::
  "('a \<Rightarrow> 'b option) \<Rightarrow> ('a, 'b) consolidator \<Rightarrow> 'a consolidatorEvent \<Rightarrow> ('a, 'b) consolidator" where
  "step processor s Start = (if started s then s else continueLoop (s\<lparr>started := True\<rparr>))"
| "step processor s (Add v) = add v s"
| "step processor s Close = close s"
| "step processor s (Next k) = addAsyncIteratorStep processor s k"
| "step processor s Resume =
     (if phase s = AwaitingSignal \<and> triggered s then continueLoop (s\<lparr>triggered := False\<rparr>) else s)"
| "step processor s Cancel = s\<lparr>stopped := True\<rparr>"

text \<open>What an iterator with the values \<open>vs\<close> contributes to the output.\<close>

definition emitted :: "('a \<Rightarrow> 'b option) \<Rightarrow> 'a list \<Rightarrow> 'b list" where
  "emitted processor vs = concat (map (\<lambda>x. case processor x of None \<Rightarrow> [] | Some y \<Rightarrow> [y]) vs)"

lemma emitted_simps [simp]:
  "emitted p [] = []"
  "emitted p (x # xs) = (case p x of None \<Rightarrow> [] | Some y \<Rightarrow> [y]) @ emitted p xs"
  by (simp_all add: emitted_def)

text \<open>The number of events it takes to exhaust the iterators.\<close>

definition work :: "'a list list \<Rightarrow> nat" where
  "work its = sum_list (map (\<lambda>vs. Suc (length vs)) its)"

text \<open>
  What holds of the flags in each phase of the loop, in every state the events reach as
  long as the consumer does not cancel: the batch is empty outside a batch, a closed
  consolidator that awaits the signal has it triggered, and \<open>_stop\<close> is only called on
  a closed consolidator that holds no iterator.
\<close>

definition wellFormed :: "('a, 'b) consolidator \<Rightarrow> bool" where
  "wellFormed s =
     ((case phase s of
         NotStarted \<Rightarrow> \<not> started s \<and> running s = []
       | InBatch \<Rightarrow> started s \<and> running s \<noteq> []
       | AwaitingSignal \<Rightarrow> started s \<and> running s = [] \<and> (closed s \<longrightarrow> triggered s)
       | Returned \<Rightarrow> started s \<and> closed s \<and> running s = [] \<and> waiting s = [])
      \<and> (stopped s \<longrightarrow> closed s \<and> running s = [] \<and> waiting s = []))"

text \<open>What the iterators held still have to contribute to the output.\<close>

definition outstanding :: "('a \<Rightarrow> 'b option) \<Rightarrow> ('a, 'b) consolidator \<Rightarrow> 'b multiset" where
  "outstanding processor s = mset (concat (map (emitted processor) (asyncIterators s)))"




lemma work_append [simp]: "work (a @ b) = work a + work b"
  by (simp add: work_def)

lemma wellFormed_new: "wellFormed (newConsolidator its)"
  by (simp add: wellFormed_def newConsolidator_def)







lemma outstanding_continueLoop [simp]:
  "outstanding p (continueLoop s) = outstanding p s"
  by (simp add: outstanding_def continueLoop_def asyncIterators_def)


lemma pushed_continueLoop [simp]: "pushed (continueLoop s) = pushed s"
  by (simp add: continueLoop_def)






lemma work_Nil [simp]: "work [] = 0"
  by (simp add: work_def)










lemma asyncIterators_continueLoop [simp]:
  "asyncIterators (continueLoop s) = asyncIterators s"
  by (simp add: continueLoop_def asyncIterators_def)







end
